theory Spec2Isabelle
  imports Complex_Main "HOL-Library.Sublist" "HOL-Library.Log_Nat"
begin

section \<open>Conventions of the embedding\<close>

text \<open>
  The sources are MicroPython modules: \<^verbatim>\<open>bme280.py\<close>, \<^verbatim>\<open>power.py\<close>,
  \<^verbatim>\<open>wifimanager.py\<close> and \<^verbatim>\<open>config.py\<close>.

  \<^item> Python integers are \<open>int\<close>.
  \<^item> A Python float is the \<open>real\<close> that it denotes. In
    \<^verbatim>\<open>_compensate_temperature\<close>, whose stored integer \<^verbatim>\<open>t_fine\<close> depends on the
    last bit of a sum, every operation rounds its exact result to the nearest binary64
    number (\<open>double\<close> below). In the other float-valued functions the operations are
    exact: the formulas keep the source's operators, constants and order of evaluation,
    and what is proved about them concerns the guards, the clamps and the order of the
    comparisons, not the last bit of a value. Infinities and NaN are not modelled: on
    values of register width no operation of the compensation overflows.
  \<^item> An object with mutable attributes is a record; a method takes the record and
    returns its result together with the updated record.
  \<^item> A Python exception is a value \<open>Inl e\<close> of the result type.
  \<^item> A leading underscore of a Python name is dropped (\<open>_compensate_temperature\<close>
    is \<open>compensate_temperature\<close>).
\<close>

datatype error = ZeroDivisionError

text \<open>Python's \<^verbatim>\<open>x / y\<close> on floats, exact: raises on a zero divisor.\<close>

definition truediv :: "real \<Rightarrow> real \<Rightarrow> error + real" where
  "truediv x y = (if y = 0 then Inl ZeroDivisionError else Inr (x / y))"

text \<open>Python's \<^verbatim>\<open>int(x)\<close> on a float: truncation towards zero.\<close>

definition py_int :: "real \<Rightarrow> int" where
  "py_int x = (if 0 \<le> x then \<lfloor>x\<rfloor> else \<lceil>x\<rceil>)"

subsection \<open>Binary64 arithmetic\<close>

text \<open>
  \<open>pow2 e\<close> is \<open>2\<^sup>e\<close>, and \<open>binade x\<close> is the exponent \<open>e\<close> with
  \<open>2\<^sup>e \<le> |x| < 2\<^sup>e\<^sup>+\<^sup>1\<close> of a non-zero \<open>x\<close>, computed from the bit length of
  \<open>\<lfloor>|x|\<rfloor>\<close> or of \<open>\<lfloor>1/|x|\<rfloor>\<close>.
\<close>

definition pow2 :: "int \<Rightarrow> real" where
  "pow2 e = (if 0 \<le> e then 2 ^ nat e else 1 / 2 ^ nat (- e))"

definition binade :: "real \<Rightarrow> int" where
  "binade x =
     (let a = \<bar>x\<bar>
      in if 1 \<le> a then bitlen \<lfloor>a\<rfloor> - 1
         else (let k = bitlen \<lfloor>1 / a\<rfloor> - 1
               in if a = pow2 (- k) then - k else - k - 1))"

text \<open>The nearest integer, a tie going to the even one.\<close>

definition round_half_even :: "real \<Rightarrow> int" where
  "round_half_even q =
     (let f = \<lfloor>q\<rfloor>; r = q - of_int f
      in if r < 1 / 2 then f else if 1 / 2 < r then f + 1
         else if even f then f else f + 1)"

text \<open>
  The binary64 number nearest to \<open>x\<close>, ties to even: a multiple of the unit in the last
  place \<open>2\<^sup>e\<^sup>-\<^sup>5\<^sup>2\<close> of the binade of \<open>x\<close>, or of \<open>2\<^sup>-\<^sup>1\<^sup>0\<^sup>7\<^sup>4\<close> below the normal
  range. The exponent is not bounded above: overflow to infinity is not modelled. This is
  the float of CPython, under which \<^verbatim>\<open>hardwaresim.py\<close> runs the modules.
\<close>

definition double :: "real \<Rightarrow> real" where
  "double x =
     (if x = 0 then 0
      else (let e = max (binade x) (- 1022); u = pow2 (e - 52)
            in of_int (round_half_even (x / u)) * u))"

text \<open>
  Python's operators on floats, each the correctly rounded exact result: the conversion
  of an integer operand, \<^verbatim>\<open>+\<close>, \<^verbatim>\<open>-\<close>, \<^verbatim>\<open>*\<close>, \<^verbatim>\<open>/\<close> by a non-zero divisor, and
  \<^verbatim>\<open>**\<close> with a literal natural exponent.
\<close>

definition float_of_int :: "int \<Rightarrow> real" where
  "float_of_int i = double (real_of_int i)"

definition fadd :: "real \<Rightarrow> real \<Rightarrow> real" where
  "fadd x y = double (x + y)"

definition fsub :: "real \<Rightarrow> real \<Rightarrow> real" where
  "fsub x y = double (x - y)"

definition fmul :: "real \<Rightarrow> real \<Rightarrow> real" where
  "fmul x y = double (x * y)"

definition fdiv :: "real \<Rightarrow> real \<Rightarrow> real" where
  "fdiv x y = double (x / y)"

definition fpow :: "real \<Rightarrow> nat \<Rightarrow> real" where
  "fpow x n = double (x ^ n)"

section \<open>bme280.py: the compensation engine\<close>

text \<open>
  The attributes of a \<^verbatim>\<open>BME280\<close> object that the compensation methods read and
  write: the calibration coefficients set by \<^verbatim>\<open>_load_calibration\<close> and the
  fine temperature \<^verbatim>\<open>t_fine\<close>.
\<close>

record bme280 =
  dig_T1 :: int
  dig_T2 :: int
  dig_T3 :: int
  dig_P1 :: int
  dig_P2 :: int
  dig_P3 :: int
  dig_P4 :: int
  dig_P5 :: int
  dig_P6 :: int
  dig_P7 :: int
  dig_P8 :: int
  dig_P9 :: int
  dig_H1 :: int
  dig_H2 :: int
  dig_H3 :: int
  dig_H4 :: int
  dig_H5 :: int
  dig_H6 :: int
  t_fine :: int

text \<open>
  \<^verbatim>\<open>BME280._compensate_temperature\<close> (bme280.py, lines 167-172), in binary64
  arithmetic. The integer operands \<^verbatim>\<open>raw_temp\<close>, \<^verbatim>\<open>dig_T1\<close>, \<^verbatim>\<open>dig_T2\<close>,
  \<^verbatim>\<open>dig_T3\<close> and \<^verbatim>\<open>t_fine\<close> are converted to floats where they meet a float; the
  literals are powers of two or 5120 and are exact.
\<close>

definition compensate_temperature :: "bme280 \<Rightarrow> int \<Rightarrow> real \<times> bme280" where
  "compensate_temperature self raw_temp =
     (let var1 = fmul (fsub (fdiv (float_of_int raw_temp) 16384)
                            (fdiv (float_of_int (dig_T1 self)) 1024))
                      (float_of_int (dig_T2 self));
          var2 = fmul (fpow (fsub (fdiv (float_of_int raw_temp) 131072)
                                  (fdiv (float_of_int (dig_T1 self)) 8192)) 2)
                      (float_of_int (dig_T3 self));
          self = self\<lparr>t_fine := py_int (fadd var1 var2)\<rparr>
      in (fdiv (float_of_int (t_fine self)) 5120, self))"

text \<open>
  The two polynomial terms in the words of the specification, and the same terms without
  rounding.
\<close>

definition temperature_var1 :: "int \<Rightarrow> int \<Rightarrow> int \<Rightarrow> real" where
  "temperature_var1 raw_temp T1 T2 =
     fmul (fsub (fdiv (float_of_int raw_temp) 16384) (fdiv (float_of_int T1) 1024))
          (float_of_int T2)"

definition temperature_var2 :: "int \<Rightarrow> int \<Rightarrow> int \<Rightarrow> real" where
  "temperature_var2 raw_temp T1 T3 =
     fmul (fpow (fsub (fdiv (float_of_int raw_temp) 131072) (fdiv (float_of_int T1) 8192)) 2)
          (float_of_int T3)"

definition exact_temperature_sum :: "int \<Rightarrow> int \<Rightarrow> int \<Rightarrow> int \<Rightarrow> real" where
  "exact_temperature_sum raw_temp T1 T2 T3 =
     ((real_of_int raw_temp / 16384) - (real_of_int T1 / 1024)) * real_of_int T2
     + ((real_of_int raw_temp / 131072) - (real_of_int T1 / 8192)) ^ 2 * real_of_int T3"

text \<open>
  \<^verbatim>\<open>BME280._compensate_pressure\<close> (bme280.py, lines 174-192). The only division
  whose divisor is not a non-zero literal is the one by \<open>var1\<close> on line 187.
\<close>

definition compensate_pressure :: "bme280 \<Rightarrow> int \<Rightarrow> error + real" where
  "compensate_pressure self raw_press =
     (let var1 = real_of_int (t_fine self) / 2 - 64000;
          var2 = var1 * var1 * real_of_int (dig_P6 self) / 32768;
          var2 = var2 + var1 * real_of_int (dig_P5 self) * 2;
          var2 = var2 / 4 + real_of_int (dig_P4 self) * 65536;
          var1 = (real_of_int (dig_P3 self) * var1 * var1 / 524288
                    + real_of_int (dig_P2 self) * var1) / 524288;
          var1 = (1 + var1 / 32768) * real_of_int (dig_P1 self)
      in if var1 = 0 then Inr 0
         else
           (let press = 1048576 - real_of_int raw_press
            in case truediv ((press - var2 / 4096) * 6250) var1 of
                 Inl e \<Rightarrow> Inl e
               | Inr press \<Rightarrow>
                   (let var1 = real_of_int (dig_P9 self) * press * press / 2147483648;
                        var2 = press * real_of_int (dig_P8 self) / 32768;
                        press = press + (var1 + var2 + real_of_int (dig_P7 self)) / 16
                    in Inr (press / 100))))"

text \<open>
  The first polynomial term of the pressure compensation: the value of \<open>var1\<close>
  that line 183 compares with zero.
\<close>

definition pressure_var1 :: "bme280 \<Rightarrow> real" where
  "pressure_var1 self =
     (let var1 = real_of_int (t_fine self) / 2 - 64000;
          var1 = (real_of_int (dig_P3 self) * var1 * var1 / 524288
                    + real_of_int (dig_P2 self) * var1) / 524288
      in (1 + var1 / 32768) * real_of_int (dig_P1 self))"

text \<open>\<^verbatim>\<open>BME280._compensate_humidity\<close> (bme280.py, lines 194-207).\<close>

definition compensate_humidity :: "bme280 \<Rightarrow> int \<Rightarrow> real" where
  "compensate_humidity self raw_hum =
     (let h = real_of_int (t_fine self) - 76800;
          h = (real_of_int raw_hum
                 - (real_of_int (dig_H4 self) * 64 + real_of_int (dig_H5 self) / 16384 * h))
              * (real_of_int (dig_H2 self) / 65536
                   * (1 + real_of_int (dig_H6 self) / 67108864 * h
                          * (1 + real_of_int (dig_H3 self) / 67108864 * h)));
          h = h * (1 - real_of_int (dig_H1 self) * h / 524288)
      in if h > 100 then 100 else if h < 0 then 0 else h)"

text \<open>
  \<^verbatim>\<open>BME280.calculate_dew_point\<close> (bme280.py, lines 267-284). Both divisors depend
  on the arguments.
\<close>

definition calculate_dew_point :: "real \<Rightarrow> real \<Rightarrow> error + real" where
  "calculate_dew_point temperature_c humidity_percent =
     (let a = 17.27;
          b = 237.7
      in case truediv (a * temperature_c) (b + temperature_c) of
           Inl e \<Rightarrow> Inl e
         | Inr q \<Rightarrow>
             (let alpha = q + (humidity_percent / 100)
              in truediv (b * alpha) (a - alpha)))"

text \<open>
  The humidity polynomial before clamping: the value of \<open>h\<close> that line 202
  compares with 100.
\<close>

definition humidity_unclamped :: "bme280 \<Rightarrow> int \<Rightarrow> real" where
  "humidity_unclamped self raw_hum =
     (let h = real_of_int (t_fine self) - 76800;
          h = (real_of_int raw_hum
                 - (real_of_int (dig_H4 self) * 64 + real_of_int (dig_H5 self) / 16384 * h))
              * (real_of_int (dig_H2 self) / 65536
                   * (1 + real_of_int (dig_H6 self) / 67108864 * h
                          * (1 + real_of_int (dig_H3 self) / 67108864 * h)))
      in h * (1 - real_of_int (dig_H1 self) * h / 524288))"

text \<open>
  The calibration bytes that \<^verbatim>\<open>hardwaresim.py\<close> serves (lines 73-96), decoded as
  \<^verbatim>\<open>_load_calibration\<close> decodes them (little-endian, so the bytes \<^verbatim>\<open>0x0B\<close>,
  \<^verbatim>\<open>0x30\<close> of \<^verbatim>\<open>dig_P3\<close> are 12299, not the 3083 of the comment on line 82), on a
  freshly constructed object.
\<close>

definition sim_calibration :: bme280 where
  "sim_calibration =
     \<lparr>dig_T1 = 27504, dig_T2 = 26435, dig_T3 = -1000,
      dig_P1 = 36447, dig_P2 = -10577, dig_P3 = 12299, dig_P4 = -30317, dig_P5 = 4,
      dig_P6 = 8, dig_P7 = 0, dig_P8 = 0, dig_P9 = 136,
      dig_H1 = 75, dig_H2 = 356, dig_H3 = 0, dig_H4 = 256, dig_H5 = 480, dig_H6 = 30,
      t_fine = 0\<rparr>"

section \<open>config.py\<close>

text \<open>
  The constants of \<^verbatim>\<open>config.py\<close> that the modelled methods read. The module is
  a parameter of every method that reads it; \<open>config_py\<close> is the file as it stands.
\<close>

record config =
  BATTERY_VOLTAGE_DIVIDER_RATIO :: real
  BATTERY_LOW_VOLTAGE :: real
  BATTERY_CRITICAL_VOLTAGE :: real
  BATTERY_FULL_VOLTAGE :: real
  VREF :: real
  SENSOR_READ_INTERVAL :: int
  DATA_BUFFER_SIZE :: int
  USE_THINGSPEAK :: bool
  USE_HTTP_POST :: bool

definition config_py :: config where
  "config_py =
     \<lparr>BATTERY_VOLTAGE_DIVIDER_RATIO = 2.0,
      BATTERY_LOW_VOLTAGE = 3.3,
      BATTERY_CRITICAL_VOLTAGE = 3.0,
      BATTERY_FULL_VOLTAGE = 4.2,
      VREF = 3.3,
      SENSOR_READ_INTERVAL = 300,
      DATA_BUFFER_SIZE = 50,
      USE_THINGSPEAK = True,
      USE_HTTP_POST = False\<rparr>"

section \<open>power.py: the battery monitor\<close>

text \<open>
  The attributes of a \<^verbatim>\<open>PowerManager\<close>. The ADC is the environment: every method
  that samples it takes the raw value that \<^verbatim>\<open>read_u16\<close> returns as an argument.
\<close>

record power_manager =
  voltage_divider_ratio :: real
  vref :: real
  low_voltage :: real
  critical_voltage :: real
  full_voltage :: real
  current_voltage :: real
  battery_percentage :: real
  is_low_battery :: bool
  is_critical_battery :: bool
  calibration_factor :: real
  voltage_samples :: "real list"
  max_samples :: int

text \<open>\<^verbatim>\<open>PowerManager.__init__\<close> (power.py, lines 14-41).\<close>

definition power_manager_init :: "config \<Rightarrow> power_manager" where
  "power_manager_init cfg =
     \<lparr>voltage_divider_ratio = BATTERY_VOLTAGE_DIVIDER_RATIO cfg,
      vref = VREF cfg,
      low_voltage = BATTERY_LOW_VOLTAGE cfg,
      critical_voltage = BATTERY_CRITICAL_VOLTAGE cfg,
      full_voltage = BATTERY_FULL_VOLTAGE cfg,
      current_voltage = 0,
      battery_percentage = 0,
      is_low_battery = False,
      is_critical_battery = False,
      calibration_factor = 1,
      voltage_samples = [],
      max_samples = 10\<rparr>"

text \<open>
  \<^verbatim>\<open>PowerManager.read_battery_voltage\<close> (power.py, lines 52-79). The mean on line 76
  divides by the length of the window. The arithmetic is exact, so the voltage and the
  mean are the values of the source's formulas before rounding; the statements below
  are about the control flow and hold for every voltage.
\<close>

definition read_battery_voltage ::
    "power_manager \<Rightarrow> int \<Rightarrow> bool \<Rightarrow> error + (real \<times> power_manager)" where
  "read_battery_voltage self raw_value averaged =
     (let voltage = (real_of_int raw_value / 65535) * vref self
                      * voltage_divider_ratio self * calibration_factor self
      in if averaged then
           (let self = self\<lparr>voltage_samples := voltage_samples self @ [voltage]\<rparr>;
                self = (if int (length (voltage_samples self)) > max_samples self
                        then self\<lparr>voltage_samples := tl (voltage_samples self)\<rparr>
                        else self)
            in case truediv (sum_list (voltage_samples self))
                            (real (length (voltage_samples self))) of
                 Inl e \<Rightarrow> Inl e
               | Inr voltage \<Rightarrow> Inr (voltage, self\<lparr>current_voltage := voltage\<rparr>))
         else Inr (voltage, self\<lparr>current_voltage := voltage\<rparr>))"

text \<open>
  Lines 92-99 of \<^verbatim>\<open>get_battery_percentage\<close>: the percentage as a function of the
  voltage read on line 89.
\<close>

definition percentage_of_voltage :: "power_manager \<Rightarrow> real \<Rightarrow> error + real" where
  "percentage_of_voltage self voltage =
     (if voltage \<ge> full_voltage self then Inr 100
      else if voltage \<le> critical_voltage self then Inr 0
      else
        (let voltage_range = full_voltage self - critical_voltage self;
             voltage_above_critical = voltage - critical_voltage self
         in case truediv voltage_above_critical voltage_range of
              Inl e \<Rightarrow> Inl e
            | Inr q \<Rightarrow> Inr (q * 100)))"

text \<open>\<^verbatim>\<open>PowerManager.get_battery_percentage\<close> (power.py, lines 81-102).\<close>

definition get_battery_percentage ::
    "power_manager \<Rightarrow> int \<Rightarrow> error + (real \<times> power_manager)" where
  "get_battery_percentage self raw_value =
     (case read_battery_voltage self raw_value True of
        Inl e \<Rightarrow> Inl e
      | Inr (voltage, self) \<Rightarrow>
          (case percentage_of_voltage self voltage of
             Inl e \<Rightarrow> Inl e
           | Inr percentage \<Rightarrow>
               Inr (percentage, self\<lparr>battery_percentage := percentage\<rparr>)))"

text \<open>
  Lines 115-130 of \<^verbatim>\<open>get_battery_status\<close>: the state string and the two flags as
  a function of the voltage read on line 111.
\<close>

definition classify_voltage :: "power_manager \<Rightarrow> real \<Rightarrow> string \<times> power_manager" where
  "classify_voltage self voltage =
     (if voltage \<le> critical_voltage self then
        (''CRITICAL'', self\<lparr>is_critical_battery := True, is_low_battery := True\<rparr>)
      else if voltage \<le> low_voltage self then
        (''LOW'', self\<lparr>is_low_battery := True, is_critical_battery := False\<rparr>)
      else if voltage \<ge> full_voltage self * 0.95 then
        (''FULL'', self\<lparr>is_low_battery := False, is_critical_battery := False\<rparr>)
      else
        (''NORMAL'', self\<lparr>is_low_battery := False, is_critical_battery := False\<rparr>))"

text \<open>
  The dictionary that \<^verbatim>\<open>get_battery_status\<close> returns; the field \<open>st_voltage\<close>
  is the key \<^verbatim>\<open>'voltage'\<close>, and so on.
\<close>

record battery_status =
  st_voltage :: real
  st_percentage :: real
  st_state :: string
  st_is_low :: bool
  st_is_critical :: bool

text \<open>
  \<^verbatim>\<open>PowerManager.get_battery_status\<close> (power.py, lines 104-138). It samples the ADC
  twice: on line 111 and, through \<^verbatim>\<open>get_battery_percentage\<close>, on line 112.
\<close>

definition get_battery_status ::
    "power_manager \<Rightarrow> int \<Rightarrow> int \<Rightarrow> error + (battery_status \<times> power_manager)" where
  "get_battery_status self raw_value1 raw_value2 =
     (case read_battery_voltage self raw_value1 True of
        Inl e \<Rightarrow> Inl e
      | Inr (voltage, self) \<Rightarrow>
          (case get_battery_percentage self raw_value2 of
             Inl e \<Rightarrow> Inl e
           | Inr (percentage, self) \<Rightarrow>
               (let (state, self) = classify_voltage self voltage
                in Inr (\<lparr>st_voltage = voltage, st_percentage = percentage,
                          st_state = state,
                          st_is_low = is_low_battery self,
                          st_is_critical = is_critical_battery self\<rparr>, self))))"

text \<open>\<^verbatim>\<open>PowerManager.is_battery_ok\<close> (power.py, lines 140-148).\<close>

definition is_battery_ok :: "power_manager \<Rightarrow> int \<Rightarrow> error + (bool \<times> power_manager)" where
  "is_battery_ok self raw_value =
     (case read_battery_voltage self raw_value True of
        Inl e \<Rightarrow> Inl e
      | Inr (voltage, self) \<Rightarrow> Inr (voltage > critical_voltage self, self))"

text \<open>\<^verbatim>\<open>PowerManager.should_enter_low_power\<close> (power.py, lines 150-157).\<close>

definition should_enter_low_power :: "power_manager \<Rightarrow> bool" where
  "should_enter_low_power self = is_low_battery self"

text \<open>\<^verbatim>\<open>PowerManager.get_suggested_sleep_time\<close> (power.py, lines 159-178).\<close>

definition get_suggested_sleep_time ::
    "config \<Rightarrow> power_manager \<Rightarrow> int \<Rightarrow> error + (int \<times> power_manager)" where
  "get_suggested_sleep_time cfg self raw_value =
     (case get_battery_percentage self raw_value of
        Inl e \<Rightarrow> Inl e
      | Inr (percentage, self) \<Rightarrow>
          (let base_interval = SENSOR_READ_INTERVAL cfg
           in if is_critical_battery self then Inr (base_interval * 4, self)
              else if is_low_battery self then Inr (base_interval * 2, self)
              else Inr (base_interval, self)))"

text \<open>
  \<^verbatim>\<open>PowerManager.calibrate\<close> (power.py, lines 180-195); the result \<open>None\<close> is
  Python's \<^verbatim>\<open>None\<close>.
\<close>

definition calibrate ::
    "power_manager \<Rightarrow> real \<Rightarrow> int \<Rightarrow> error + (real option \<times> power_manager)" where
  "calibrate self actual_voltage raw_value =
     (case read_battery_voltage self raw_value False of
        Inl e \<Rightarrow> Inl e
      | Inr (measured_voltage, self) \<Rightarrow>
          (if measured_voltage > 0 then
             (case truediv actual_voltage measured_voltage of
                Inl e \<Rightarrow> Inl e
              | Inr factor \<Rightarrow>
                  Inr (Some factor, self\<lparr>calibration_factor := factor\<rparr>))
           else Inr (None, self)))"

text \<open>
  A call of a public method of \<^verbatim>\<open>PowerManager\<close> that touches the object, with the
  ADC samples it consumes. \<^verbatim>\<open>print_status\<close> is \<^verbatim>\<open>get_battery_status\<close> followed
  by printing, and is the same call here.
\<close>

datatype pm_call =
    Read_battery_voltage int bool
  | Get_battery_percentage int
  | Get_battery_status int int
  | Is_battery_ok int
  | Should_enter_low_power
  | Get_suggested_sleep_time int
  | Calibrate real int

fun is_status_call :: "pm_call \<Rightarrow> bool" where
  "is_status_call (Get_battery_status _ _) = True"
| "is_status_call _ = False"

text \<open>The object after one call; the call's result is dropped.\<close>

fun pm_step :: "config \<Rightarrow> power_manager \<Rightarrow> pm_call \<Rightarrow> error + power_manager" where
  "pm_step cfg self (Read_battery_voltage raw averaged) =
     map_sum id snd (read_battery_voltage self raw averaged)"
| "pm_step cfg self (Get_battery_percentage raw) =
     map_sum id snd (get_battery_percentage self raw)"
| "pm_step cfg self (Get_battery_status raw1 raw2) =
     map_sum id snd (get_battery_status self raw1 raw2)"
| "pm_step cfg self (Is_battery_ok raw) =
     map_sum id snd (is_battery_ok self raw)"
| "pm_step cfg self Should_enter_low_power = Inr self"
| "pm_step cfg self (Get_suggested_sleep_time raw) =
     map_sum id snd (get_suggested_sleep_time cfg self raw)"
| "pm_step cfg self (Calibrate actual raw) =
     map_sum id snd (calibrate self actual raw)"

text \<open>A sequence of calls; an exception ends it.\<close>

fun pm_run :: "config \<Rightarrow> power_manager \<Rightarrow> pm_call list \<Rightarrow> error + power_manager" where
  "pm_run cfg self [] = Inr self"
| "pm_run cfg self (c # cs) =
     (case pm_step cfg self c of Inl e \<Rightarrow> Inl e | Inr self \<Rightarrow> pm_run cfg self cs)"

subsection \<open>Derived notions used in the statements about the battery monitor\<close>

text \<open>
  Line 67 of \<^verbatim>\<open>read_battery_voltage\<close>: the voltage of one raw sample.
\<close>

definition sample_voltage :: "power_manager \<Rightarrow> int \<Rightarrow> real" where
  "sample_voltage self raw =
     (real_of_int raw / 65535) * vref self * voltage_divider_ratio self
       * calibration_factor self"

text \<open>
  Lines 71-73: the window of samples after appending one sample and, when it is now
  longer than \<open>max_samples\<close>, dropping the oldest.
\<close>

definition next_window :: "power_manager \<Rightarrow> int \<Rightarrow> real list" where
  "next_window self raw =
     (let w = voltage_samples self @ [sample_voltage self raw]
      in if int (length w) > max_samples self then tl w else w)"

text \<open>
  The value that lines 92-99 assign to \<^verbatim>\<open>percentage\<close>.
\<close>

definition percentage_value :: "power_manager \<Rightarrow> real \<Rightarrow> real" where
  "percentage_value self v = (if v \<ge> full_voltage self then 100
          else if v \<le> critical_voltage self then 0
          else (v - critical_voltage self) / (full_voltage self - critical_voltage self) * 100)"

text \<open>
  The window can be averaged after the next sample: the mean on line 76 will not divide
  by zero.
\<close>

definition pm_ok :: "power_manager \<Rightarrow> bool" where
  "pm_ok self \<longleftrightarrow> 0 < max_samples self \<or> voltage_samples self \<noteq> []"

text \<open>
  Two objects agree on the battery flags, the thresholds and the window capacity.
\<close>

definition same_flags :: "power_manager \<Rightarrow> power_manager \<Rightarrow> bool" where
  "same_flags s self \<longleftrightarrow>
     is_low_battery s = is_low_battery self
     \<and> is_critical_battery s = is_critical_battery self
     \<and> critical_voltage s = critical_voltage self
     \<and> low_voltage s = low_voltage self
     \<and> full_voltage s = full_voltage self
     \<and> max_samples s = max_samples self"

text \<open>
  Lines 170-178 of \<^verbatim>\<open>get_suggested_sleep_time\<close>: the result as a function of
  the two flags.
\<close>

definition sleep_for_flags :: "config \<Rightarrow> power_manager \<Rightarrow> int" where
  "sleep_for_flags cfg self =
     (if is_critical_battery self then SENSOR_READ_INTERVAL cfg * 4
      else if is_low_battery self then SENSOR_READ_INTERVAL cfg * 2
      else SENSOR_READ_INTERVAL cfg)"

text \<open>
  The manager after \<^verbatim>\<open>get_battery_status\<close> on a fresh object with two raw samples
  of 0.
\<close>

definition critical_after_two_zero_samples :: power_manager where
  "critical_after_two_zero_samples =
     (power_manager_init config_py)
       \<lparr>voltage_samples := [0, 0], current_voltage := 0, battery_percentage := 0,
         is_critical_battery := True, is_low_battery := True\<rparr>"

section \<open>wifimanager.py: the transmission buffer and the senders\<close>

text \<open>
  A buffered entry is the dictionary built on lines 252-255; \<open>'d\<close> is the type of
  the readings. The attributes of a \<^verbatim>\<open>WiFiManager\<close> follow.
\<close>

record 'd buffered_entry =
  entry_timestamp :: real
  entry_data :: 'd

record 'd wifi_manager =
  is_connected :: bool
  connection_attempts :: int
  last_connection_time :: real
  failed_transmissions :: int
  data_buffer :: "'d buffered_entry list"

text \<open>
  The network is the environment. What it answers is fixed in advance by an oracle:
  the outcome of the k-th call of \<^verbatim>\<open>connect\<close> and the response to the k-th HTTP
  request. The record \<open>world\<close> counts the calls made so far and logs, oldest first, the
  reading of every call of a sender (\<^verbatim>\<open>send_to_thingspeak\<close> or
  \<^verbatim>\<open>send_http_post\<close>).
\<close>

datatype conn_outcome = Already_connected | Connected real | Timed_out

datatype http_response = Status int | Raised

record net =
  connect_outcome :: "nat \<Rightarrow> conn_outcome"
  response :: "nat \<Rightarrow> http_response"

record 'd world =
  connect_calls :: nat
  requests_made :: nat
  sender_calls :: "'d list"

text \<open>\<^verbatim>\<open>WiFiManager.__init__\<close> (wifimanager.py, lines 16-27), in a world without calls.\<close>

definition wifi_manager_init :: "'d wifi_manager" where
  "wifi_manager_init =
     \<lparr>is_connected = False, connection_attempts = 0, last_connection_time = 0,
      failed_transmissions = 0, data_buffer = []\<rparr>"

definition world_init :: "'d world" where
  "world_init = \<lparr>connect_calls = 0, requests_made = 0, sender_calls = []\<rparr>"

text \<open>
  \<^verbatim>\<open>WiFiManager.connect\<close> (wifimanager.py, lines 29-83). The wait loop of lines 63-73
  ends either connected or timed out; which of the two, and when, is the oracle's answer
  (\<open>Connected t\<close> carries the time read on line 77). The calls of the interface
  \<^verbatim>\<open>wlan\<close> themselves are taken not to raise.
\<close>

definition connect ::
    "net \<Rightarrow> 'd wifi_manager \<times> 'd world \<Rightarrow> bool \<times> 'd wifi_manager \<times> 'd world" where
  "connect nw st =
     (let (self, w) = st;
          outcome = connect_outcome nw (connect_calls w);
          w = w\<lparr>connect_calls := Suc (connect_calls w)\<rparr>
      in case outcome of
           Already_connected \<Rightarrow> (True, self\<lparr>is_connected := True\<rparr>, w)
         | Timed_out \<Rightarrow>
             (False, self\<lparr>is_connected := False,
                          connection_attempts := connection_attempts self + 1\<rparr>, w)
         | Connected t \<Rightarrow>
             (True, self\<lparr>is_connected := True, last_connection_time := t,
                         connection_attempts := 0\<rparr>, w))"

text \<open>\<^verbatim>\<open>WiFiManager.disconnect\<close> (wifimanager.py, lines 85-92).\<close>

definition disconnect :: "'d wifi_manager \<Rightarrow> 'd wifi_manager" where
  "disconnect self = self\<lparr>is_connected := False\<rparr>"

text \<open>
  Lines 138-183 of \<^verbatim>\<open>send_to_thingspeak\<close> and lines 202-242 of
  \<^verbatim>\<open>send_http_post\<close>: one request inside \<^verbatim>\<open>try\<close>; \<open>accepted\<close> are the status
  codes that count as success; any exception counts as a failure.
\<close>

definition request ::
    "net \<Rightarrow> int list \<Rightarrow> 'd wifi_manager \<times> 'd world \<Rightarrow> bool \<times> 'd wifi_manager \<times> 'd world" where
  "request nw accepted st =
     (let (self, w) = st;
          r = response nw (requests_made w);
          w = w\<lparr>requests_made := Suc (requests_made w)\<rparr>
      in case r of
           Status code \<Rightarrow>
             (if code \<in> set accepted
              then (True, self\<lparr>failed_transmissions := 0\<rparr>, w)
              else (False, self\<lparr>failed_transmissions := failed_transmissions self + 1\<rparr>, w))
         | Raised \<Rightarrow>
             (False, self\<lparr>failed_transmissions := failed_transmissions self + 1\<rparr>, w))"

text \<open>\<^verbatim>\<open>WiFiManager.send_to_thingspeak\<close> (wifimanager.py, lines 120-183).\<close>

definition send_to_thingspeak ::
    "config \<Rightarrow> net \<Rightarrow> 'd wifi_manager \<times> 'd world \<Rightarrow> 'd
       \<Rightarrow> bool \<times> 'd wifi_manager \<times> 'd world" where
  "send_to_thingspeak cfg nw st data =
     (let (self, w) = st;
          w = w\<lparr>sender_calls := sender_calls w @ [data]\<rparr>
      in if \<not> USE_THINGSPEAK cfg then (False, self, w)
         else if \<not> is_connected self then
           (let (ok, self, w) = connect nw (self, w)
            in if \<not> ok then (False, self, w) else request nw [200] (self, w))
         else request nw [200] (self, w))"

text \<open>\<^verbatim>\<open>WiFiManager.send_http_post\<close> (wifimanager.py, lines 185-242).\<close>

definition send_http_post ::
    "config \<Rightarrow> net \<Rightarrow> 'd wifi_manager \<times> 'd world \<Rightarrow> 'd
       \<Rightarrow> bool \<times> 'd wifi_manager \<times> 'd world" where
  "send_http_post cfg nw st data =
     (let (self, w) = st;
          w = w\<lparr>sender_calls := sender_calls w @ [data]\<rparr>
      in if \<not> USE_HTTP_POST cfg then (False, self, w)
         else if \<not> is_connected self then
           (let (ok, self, w) = connect nw (self, w)
            in if \<not> ok then (False, self, w) else request nw [200, 201] (self, w))
         else request nw [200, 201] (self, w))"

text \<open>
  \<^verbatim>\<open>WiFiManager.buffer_data\<close> (wifimanager.py, lines 244-264); \<open>timestamp\<close> is the
  clock value read on line 251.
\<close>

definition buffer_data :: "config \<Rightarrow> 'd wifi_manager \<Rightarrow> real \<Rightarrow> 'd \<Rightarrow> 'd wifi_manager" where
  "buffer_data cfg self timestamp data =
     (let buffered_entry = \<lparr>entry_timestamp = timestamp, entry_data = data\<rparr>;
          self = self\<lparr>data_buffer := data_buffer self @ [buffered_entry]\<rparr>
      in if int (length (data_buffer self)) > DATA_BUFFER_SIZE cfg
         then self\<lparr>data_buffer := tl (data_buffer self)\<rparr>
         else self)"

text \<open>
  Lines 287-292: the transport chosen by the configuration, applied to one reading.
\<close>

definition send_configured ::
    "config \<Rightarrow> net \<Rightarrow> 'd wifi_manager \<times> 'd world \<Rightarrow> 'd
       \<Rightarrow> bool \<times> 'd wifi_manager \<times> 'd world" where
  "send_configured cfg nw st data =
     (if USE_THINGSPEAK cfg then send_to_thingspeak cfg nw st data
      else if USE_HTTP_POST cfg then send_http_post cfg nw st data
      else (False, st))"

text \<open>
  The loop of lines 286-300 over the entries still to visit, with the count of
  transmitted entries and the failed entries so far.
\<close>

fun transmit_loop ::
    "config \<Rightarrow> net \<Rightarrow> 'd buffered_entry list
       \<Rightarrow> int \<times> 'd buffered_entry list \<times> 'd wifi_manager \<times> 'd world
       \<Rightarrow> int \<times> 'd buffered_entry list \<times> 'd wifi_manager \<times> 'd world" where
  "transmit_loop cfg nw [] acc = acc"
| "transmit_loop cfg nw (entry # entries) (transmitted_count, failed_entries, st) =
     (let (success, st) = send_configured cfg nw st (entry_data entry)
      in if success
         then transmit_loop cfg nw entries (transmitted_count + 1, failed_entries, st)
         else transmit_loop cfg nw entries
                (transmitted_count, failed_entries @ [entry], st))"

text \<open>\<^verbatim>\<open>WiFiManager.transmit_buffered_data\<close> (wifimanager.py, lines 266-308).\<close>

definition transmit_buffered_data ::
    "config \<Rightarrow> net \<Rightarrow> 'd wifi_manager \<times> 'd world \<Rightarrow> int \<times> 'd wifi_manager \<times> 'd world" where
  "transmit_buffered_data cfg nw st =
     (let (self, w) = st
      in if data_buffer self = [] then (0, self, w)
         else
           (let (ok, self, w) =
                  (if \<not> is_connected self then connect nw (self, w) else (True, self, w))
            in if \<not> ok then (0, self, w)
               else
                 (let (transmitted_count, failed_entries, self, w) =
                        transmit_loop cfg nw (data_buffer self) (0, [], self, w)
                  in (transmitted_count, self\<lparr>data_buffer := failed_entries\<rparr>, w))))"

text \<open>
  \<^verbatim>\<open>WiFiManager.send_data\<close> (wifimanager.py, lines 310-337); \<open>timestamp\<close> is the clock
  value that \<^verbatim>\<open>buffer_data\<close> reads if it is called.
\<close>

definition send_data ::
    "config \<Rightarrow> net \<Rightarrow> 'd wifi_manager \<times> 'd world \<Rightarrow> real \<Rightarrow> 'd
       \<Rightarrow> bool \<times> 'd wifi_manager \<times> 'd world" where
  "send_data cfg nw st timestamp data =
     (let st = (if data_buffer (fst st) \<noteq> [] then snd (transmit_buffered_data cfg nw st)
                else st);
          (success, self, w) = send_configured cfg nw st data
      in if \<not> success then (success, buffer_data cfg self timestamp data, w)
         else (success, self, w))"

text \<open>
  The states that a manager and its world can be in: those that the methods which write
  attributes produce from a freshly constructed manager. \<^verbatim>\<open>reconnect\<close> and
  \<^verbatim>\<open>sync_time_ntp\<close> write attributes only through \<^verbatim>\<open>connect\<close>.
\<close>

inductive reachable :: "config \<Rightarrow> net \<Rightarrow> 'd wifi_manager \<times> 'd world \<Rightarrow> bool"
  for cfg :: config and nw :: net where
  r_init: "reachable cfg nw (wifi_manager_init, world_init)"
| r_connect: "reachable cfg nw st \<Longrightarrow> reachable cfg nw (snd (connect nw st))"
| r_disconnect: "reachable cfg nw (self, w) \<Longrightarrow> reachable cfg nw (disconnect self, w)"
| r_thingspeak:
    "reachable cfg nw st \<Longrightarrow> reachable cfg nw (snd (send_to_thingspeak cfg nw st data))"
| r_http_post:
    "reachable cfg nw st \<Longrightarrow> reachable cfg nw (snd (send_http_post cfg nw st data))"
| r_buffer:
    "reachable cfg nw (self, w) \<Longrightarrow> reachable cfg nw (buffer_data cfg self timestamp data, w)"
| r_transmit:
    "reachable cfg nw st \<Longrightarrow> reachable cfg nw (snd (transmit_buffered_data cfg nw st))"
| r_send:
    "reachable cfg nw st \<Longrightarrow> reachable cfg nw (snd (send_data cfg nw st timestamp data))"

text \<open>A sequence of calls of \<^verbatim>\<open>buffer_data\<close>, each with its clock value and reading.\<close>

fun buffer_all ::
    "config \<Rightarrow> 'd wifi_manager \<Rightarrow> (real \<times> 'd) list \<Rightarrow> 'd wifi_manager" where
  "buffer_all cfg self [] = self"
| "buffer_all cfg self ((timestamp, data) # rest) =
     buffer_all cfg (buffer_data cfg self timestamp data) rest"

text \<open>The entry that \<^verbatim>\<open>buffer_data\<close> builds from a clock value and a reading.\<close>

definition entry_of :: "real \<times> 'd \<Rightarrow> 'd buffered_entry" where
  "entry_of td = \<lparr>entry_timestamp = fst td, entry_data = snd td\<rparr>"

text \<open>\<^verbatim>\<open>WiFiManager.reconnect\<close> (wifimanager.py, lines 94-98).\<close>

definition reconnect ::
    "net \<Rightarrow> 'd wifi_manager \<times> 'd world \<Rightarrow> bool \<times> 'd wifi_manager \<times> 'd world" where
  "reconnect nw st = (if \<not> is_connected (fst st) then connect nw st else (True, st))"

subsection \<open>Derived notions used in the statements about the transmission buffer\<close>

text \<open>
  The values of \<^verbatim>\<open>success\<close> in the loop of lines 286-300, in the order of the
  entries visited.
\<close>

fun loop_outcomes ::
    "config \<Rightarrow> net \<Rightarrow> 'd buffered_entry list \<Rightarrow> 'd wifi_manager \<times> 'd world \<Rightarrow> bool list" where
  "loop_outcomes cfg nw [] st = []"
| "loop_outcomes cfg nw (entry # entries) st =
     (let (success, st) = send_configured cfg nw st (entry_data entry)
      in success # loop_outcomes cfg nw entries st)"

text \<open>
  The entries whose outcome is a failure, in their order; and the outcomes of a drain
  that reaches the loop: lines 276-278 are the body of \<^verbatim>\<open>reconnect\<close>.
\<close>

definition failed_of :: "'a list \<Rightarrow> bool list \<Rightarrow> 'a list" where
  "failed_of es oks = map fst (filter (\<lambda>p. \<not> snd p) (zip es oks))"

definition drain_outcomes ::
    "config \<Rightarrow> net \<Rightarrow> 'd wifi_manager \<times> 'd world \<Rightarrow> bool list" where
  "drain_outcomes cfg nw st =
     loop_outcomes cfg nw (data_buffer (fst st)) (snd (reconnect nw st))"

text \<open>
  Three networks. On the first two the first five calls of \<^verbatim>\<open>connect\<close> time out and
  the sixth connects; the first answers every request with status 200, the second
  answers the request numbered 1 with status 500. On the third nothing ever connects.
\<close>

definition flaky_net :: net where
  "flaky_net =
     \<lparr>connect_outcome = (\<lambda>k. if k < 5 then Timed_out else Connected 100),
      response = (\<lambda>i. Status 200)\<rparr>"

definition lossy_net :: net where
  "lossy_net =
     \<lparr>connect_outcome = (\<lambda>k. if k < 5 then Timed_out else Connected 100),
      response = (\<lambda>i. if i = 1 then Status 500 else Status 200)\<rparr>"

definition dead_net :: net where
  "dead_net = \<lparr>connect_outcome = (\<lambda>k. Timed_out), response = (\<lambda>i. Raised)\<rparr>"

text \<open>\<^verbatim>\<open>config.py\<close> with a buffer of capacity 2.\<close>

definition small_config :: config where
  "small_config = config_py\<lparr>DATA_BUFFER_SIZE := 2\<rparr>"

text \<open>
  The round trip: three calls of \<^verbatim>\<open>send_data\<close> on a freshly constructed manager,
  with the readings 1, 2 and 3 at the clock values 10, 20 and 30; and the state that
  they leave when every connection attempt times out and the capacity is 50.
\<close>

definition after_three_failed_sends :: "config \<Rightarrow> net \<Rightarrow> nat wifi_manager \<times> nat world" where
  "after_three_failed_sends cfg nw =
     snd (send_data cfg nw
       (snd (send_data cfg nw
         (snd (send_data cfg nw (wifi_manager_init, world_init) 10 1)) 20 2)) 30 3)"

definition three_buffered :: "nat wifi_manager \<times> nat world" where
  "three_buffered =
     (\<lparr>is_connected = False, connection_attempts = 5, last_connection_time = 0,
       failed_transmissions = 0,
       data_buffer = [entry_of (10, 1), entry_of (20, 2), entry_of (30, 3)]\<rparr>,
      \<lparr>connect_calls = 5, requests_made = 0, sender_calls = [1, 2, 3]\<rparr>)"

section \<open>Properties of the compensation engine\<close>

subsection \<open>Binary64 rounding\<close>

text \<open>
  \<open>binade\<close> is the binary exponent; \<open>double x\<close> is within half a unit in the last
  place of \<open>x\<close>; and an integer of magnitude at most \<open>2\<^sup>5\<^sup>3\<close>, so every integer of
  register width, is its own float.
\<close>

lemma pow2_powr: "pow2 e = 2 powr (real_of_int e)"
  unfolding pow2_def
  by (auto simp: powr_realpow [symmetric] powr_minus field_simps)

lemma pow2_pos: "0 < pow2 e"
  by (simp add: pow2_powr)

lemma pow2_add: "pow2 (a + b) = pow2 a * pow2 b"
  by (simp add: pow2_powr powr_add)

lemma pow2_le_iff: "pow2 a \<le> pow2 b \<longleftrightarrow> a \<le> b"
  by (simp add: pow2_powr)

lemma pow2_less_iff: "pow2 a < pow2 b \<longleftrightarrow> a < b"
  by (simp add: pow2_powr)

lemma pow2_0: "pow2 0 = 1"
  by (simp add: pow2_def)

lemma pow2_neg: "pow2 (- e) = 1 / pow2 e"
  by (simp add: pow2_powr powr_minus field_simps)

lemma pow2_of_nat: "0 \<le> e \<Longrightarrow> pow2 e = real_of_int (2 ^ nat e)"
  by (simp add: pow2_def)

lemma bitlen_real_bounds:
  assumes "1 \<le> (a :: real)"
  shows "pow2 (bitlen \<lfloor>a\<rfloor> - 1) \<le> a" and "a < pow2 (bitlen \<lfloor>a\<rfloor>)"
proof -
  define m where "m = \<lfloor>a\<rfloor>"
  define b where "b = bitlen m"
  from assms have m: "0 < m" unfolding m_def by linarith
  from bitlen_bounds [OF m] have lo: "2 ^ nat (b - 1) \<le> m"
    and hi: "m < 2 ^ nat b" by (simp_all add: b_def)
  from m have b1: "1 \<le> b" by (auto simp: bitlen_alt_def b_def)
  have ma: "real_of_int m \<le> a" and am: "a < real_of_int (m + 1)"
    unfolding m_def by linarith+
  have "pow2 (b - 1) = real_of_int (2 ^ nat (b - 1))"
    using b1 by (intro pow2_of_nat) simp
  also have "\<dots> \<le> real_of_int m" using lo by (simp only: of_int_le_iff)
  finally have "pow2 (b - 1) \<le> a" using ma by linarith
  then show "pow2 (bitlen \<lfloor>a\<rfloor> - 1) \<le> a" by (simp only: b_def m_def)
  from hi have "m + 1 \<le> 2 ^ nat b" by simp
  then have "real_of_int (m + 1) \<le> real_of_int (2 ^ nat b)"
    by (simp only: of_int_le_iff)
  also have "\<dots> = pow2 b" using b1 by (intro pow2_of_nat [symmetric]) simp
  finally have "a < pow2 b" using am by linarith
  then show "a < pow2 (bitlen \<lfloor>a\<rfloor>)" by (simp only: b_def m_def)
qed

lemma binade_bounds:
  assumes "x \<noteq> 0"
  shows "pow2 (binade x) \<le> \<bar>x\<bar>" and "\<bar>x\<bar> < pow2 (binade x + 1)"
proof -
  define a where "a = \<bar>x\<bar>"
  from assms have a: "0 < a" by (simp add: a_def)
  have "pow2 (binade x) \<le> a \<and> a < pow2 (binade x + 1)"
  proof (cases "1 \<le> a")
    case True
    then have "binade x = bitlen \<lfloor>a\<rfloor> - 1" by (simp add: binade_def a_def)
    with bitlen_real_bounds [OF True] show ?thesis by simp
  next
    case False
    define k where "k = bitlen \<lfloor>1 / a\<rfloor> - 1"
    from False a have i: "1 \<le> 1 / a" by (simp add: field_simps)
    from bitlen_real_bounds [OF i]
    have lo: "pow2 k \<le> 1 / a" and hi: "1 / a < pow2 (k + 1)" by (simp_all add: k_def)
    have pk: "0 < pow2 k" and pk1: "0 < pow2 (k + 1)" by (rule pow2_pos)+
    from lo a pk have "a \<le> 1 / pow2 k" by (simp add: field_simps)
    then have u: "a \<le> pow2 (- k)" by (simp only: pow2_neg)
    from hi a pk1 have "1 / pow2 (k + 1) < a" by (simp add: field_simps)
    then have "pow2 (- (k + 1)) < a" by (simp only: pow2_neg)
    then have l: "pow2 (- k - 1) < a" by simp
    have b: "binade x = (if a = pow2 (- k) then - k else - k - 1)"
      using False by (simp add: binade_def Let_def a_def [symmetric] k_def [symmetric])
    show ?thesis
    proof (cases "a = pow2 (- k)")
      case True
      then have "binade x = - k" by (simp add: b)
      moreover have "pow2 (- k) < pow2 (- k + 1)" by (simp add: pow2_less_iff)
      ultimately show ?thesis using True by simp
    next
      case ne: False
      then have "binade x = - k - 1" by (simp add: b)
      with l u ne show ?thesis by simp
    qed
  qed
  then show "pow2 (binade x) \<le> \<bar>x\<bar>" and "\<bar>x\<bar> < pow2 (binade x + 1)"
    by (simp_all add: a_def)
qed

lemma round_half_even_near: "\<bar>real_of_int (round_half_even q) - q\<bar> \<le> 1 / 2"
  unfolding round_half_even_def Let_def by (simp; linarith)

lemma round_half_even_of_int: "round_half_even (real_of_int k) = k"
  by (simp add: round_half_even_def)

lemma double_near:
  "\<bar>double x - x\<bar> \<le> pow2 (max (binade x) (- 1022) - 52) / 2"
proof (cases "x = 0")
  case True
  then show ?thesis using pow2_pos [of "max (binade 0) (- 1022) - 52"] by (simp add: double_def)
next
  case False
  define u where "u = pow2 (max (binade x) (- 1022) - 52)"
  have u: "0 < u" unfolding u_def by (rule pow2_pos)
  have d: "double x = real_of_int (round_half_even (x / u)) * u"
    using False by (simp add: double_def Let_def u_def)
  have "double x - x = (real_of_int (round_half_even (x / u)) - x / u) * u"
    using u by (simp add: d field_simps)
  then have "\<bar>double x - x\<bar> = \<bar>real_of_int (round_half_even (x / u)) - x / u\<bar> * u"
    using u by (simp add: abs_mult)
  also have "\<dots> \<le> 1 / 2 * u"
    using round_half_even_near [of "x / u"] u by (intro mult_right_mono) simp_all
  finally show ?thesis by (simp add: u_def)
qed

lemma double_of_int:
  assumes "\<bar>n\<bar> \<le> 2 ^ 53"
  shows "double (real_of_int n) = real_of_int n"
proof (cases "n = 0")
  case True
  then show ?thesis by (simp add: double_def)
next
  case False
  define x where "x = real_of_int n"
  define e where "e = binade x"
  from False have x: "x \<noteq> 0" by (simp add: x_def)
  from False have "1 \<le> \<bar>n\<bar>" by simp
  then have "real_of_int 1 \<le> real_of_int \<bar>n\<bar>" by (simp only: of_int_le_iff)
  then have x1: "1 \<le> \<bar>x\<bar>" by (simp add: x_def)
  from assms have "real_of_int \<bar>n\<bar> \<le> real_of_int (2 ^ 53)" by (simp only: of_int_le_iff)
  then have x53: "\<bar>x\<bar> \<le> pow2 53" by (simp add: x_def pow2_def)
  from x1 binade_bounds(2) [OF x] have "pow2 0 < pow2 (e + 1)"
    by (simp add: pow2_0 e_def)
  then have e0: "0 \<le> e" by (simp add: pow2_less_iff)
  from x53 binade_bounds(1) [OF x] have "pow2 e \<le> pow2 53" by (simp add: e_def)
  then have e53: "e \<le> 53" by (simp only: pow2_le_iff)
  have m: "max e (- 1022) = e" using e0 by simp
  have d: "double x = real_of_int (round_half_even (x / pow2 (e - 52))) * pow2 (e - 52)"
    using x by (simp add: double_def Let_def e_def [symmetric] m)
  have "double x = x"
  proof (cases "e \<le> 52")
    case True
    define j where "j = nat (52 - e)"
    have u: "pow2 (e - 52) = 1 / 2 ^ j"
      using True by (cases "e = 52") (simp_all add: pow2_def j_def)
    have q: "x / pow2 (e - 52) = real_of_int (n * 2 ^ j)" by (simp add: u x_def)
    show ?thesis unfolding d q round_half_even_of_int by (simp add: u x_def)
  next
    case False
    with e53 have e: "e = 53" by simp
    with binade_bounds(1) [OF x] have "pow2 53 \<le> \<bar>x\<bar>" by (simp add: e_def)
    with x53 have "\<bar>x\<bar> = real_of_int (2 ^ 53)" by (simp add: pow2_def)
    then have "real_of_int \<bar>n\<bar> = real_of_int (2 ^ 53)" by (simp add: x_def)
    then have "\<bar>n\<bar> = 2 ^ 53" by (simp only: of_int_eq_iff)
    then have "\<bar>n\<bar> = 9007199254740992" by simp
    then have "\<exists>k. n = 2 * k" by presburger
    then obtain k where k: "n = 2 * k" ..
    have u: "pow2 (e - 52) = 2" by (simp add: e pow2_def)
    have q: "x / pow2 (e - 52) = real_of_int k" by (simp add: u k x_def)
    show ?thesis unfolding d q round_half_even_of_int by (simp add: u x_def k)
  qed
  then show ?thesis by (simp add: x_def)
qed

lemma float_of_int_exact: "\<bar>n\<bar> \<le> 2 ^ 53 \<Longrightarrow> float_of_int n = real_of_int n"
  unfolding float_of_int_def by (rule double_of_int)

text \<open>
  The model on known values: the float of the literal \<^verbatim>\<open>0.1\<close>, and two ties
  between neighbouring floats above \<open>2\<^sup>5\<^sup>3\<close>.
\<close>

lemma double_one_tenth: "double (1 / 10) = 3602879701896397 / 36028797018963968"
  by code_simp

lemma double_ties:
  "double 9007199254740993 = 9007199254740992"
  "double 9007199254740995 = 9007199254740996"
  by code_simp+



subsection \<open>Truncation towards zero\<close>

lemma py_int_abs_le: "\<bar>real_of_int (py_int x)\<bar> \<le> \<bar>x\<bar>"
  unfolding py_int_def by (simp; linarith)

lemma py_int_near: "\<bar>x - real_of_int (py_int x)\<bar> < 1"
  unfolding py_int_def by (simp; linarith)

lemma py_int_sign: "0 \<le> real_of_int (py_int x) * x"
  unfolding py_int_def by (auto simp: mult_nonpos_nonpos)

subsection \<open>Temperature\<close>

text \<open>
  Claim C1. For every raw temperature and every calibration, the temperature
  compensation computes, in binary64 arithmetic, the terms
  \<open>var1 = (raw/16384 - dig_T1/1024) * dig_T2\<close> and
  \<open>var2 = (raw/131072 - dig_T1/8192)\<^sup>2 * dig_T3\<close>, stores as fine temperature the
  truncation towards zero of their float sum, changes nothing else, and returns the fine
  temperature divided by 5120. Truncation is stated by what determines it: the stored
  integer is no larger in magnitude than the sum, less than 1 away from it, and not of
  the opposite sign.
\<close>

theorem compensate_temperature_formula:
  "(let var1 = temperature_var1 raw_temp (dig_T1 self) (dig_T2 self);
        var2 = temperature_var2 raw_temp (dig_T1 self) (dig_T3 self);
        (temperature, self') = compensate_temperature self raw_temp;
        fine = t_fine self'
    in temperature = fdiv (float_of_int fine) 5120
       \<and> self' = self\<lparr>t_fine := fine\<rparr>
       \<and> fine = py_int (fadd var1 var2)
       \<and> \<bar>real_of_int fine\<bar> \<le> \<bar>fadd var1 var2\<bar>
       \<and> \<bar>fadd var1 var2 - real_of_int fine\<bar> < 1
       \<and> 0 \<le> real_of_int fine * fadd var1 var2)"
  unfolding compensate_temperature_def temperature_var1_def temperature_var2_def Let_def
  by (simp add: py_int_abs_le py_int_near py_int_sign)

text \<open>
  The simulator's sample (raw temperature 519888, "about 25 degrees"): the fine
  temperature is 128422 and the temperature the float nearest to 128422/5120, 25.08
  degrees.
\<close>

lemma compensate_temperature_sim:
  "compensate_temperature sim_calibration 519888
     = (3530037056556237 / 140737488355328, sim_calibration\<lparr>t_fine := 128422\<rparr>)"
  by code_simp

text \<open>
  Rounding decides the stored integer. With raw temperature 80239 and the coefficients
  63346, 18361 and 24766 the exact sum of the two terms is just below 209756 and
  truncates to 209755; the float sum is 209756, and that is what is stored.
\<close>

lemma compensate_temperature_rounds:
  "snd (compensate_temperature
          (sim_calibration\<lparr>dig_T1 := 63346, dig_T2 := 18361, dig_T3 := 24766\<rparr>) 80239)
     = sim_calibration\<lparr>dig_T1 := 63346, dig_T2 := 18361, dig_T3 := 24766, t_fine := 209756\<rparr>"
  by code_simp

lemma exact_temperature_sum_truncates:
  "py_int (exact_temperature_sum 80239 63346 18361 24766) = 209755"
  by code_simp

subsection \<open>Humidity\<close>

lemma clamp_shape:
  fixes h :: real
  shows "0 \<le> (if h > 100 then 100 else if h < 0 then 0 else h)
         \<and> (if h > 100 then 100 else if h < 0 then 0 else h) \<le> 100
         \<and> (if h > 100 then 100 else if h < 0 then 0 else h) = max 0 (min 100 h)"
  by (simp add: max_def min_def)

text \<open>
  Claim C2. For every raw humidity, fine temperature and calibration, the humidity
  compensation returns a value between 0 and 100: it is the humidity polynomial, replaced
  by 100 when above 100 and by 0 when below 0.
\<close>

theorem compensate_humidity_clamped:
  "0 \<le> compensate_humidity self raw_hum
   \<and> compensate_humidity self raw_hum \<le> 100
   \<and> compensate_humidity self raw_hum = max 0 (min 100 (humidity_unclamped self raw_hum))"
  unfolding compensate_humidity_def humidity_unclamped_def Let_def
  by (rule clamp_shape)

subsection \<open>Pressure\<close>

lemma compensate_pressure_guard:
  "pressure_var1 self = 0 \<Longrightarrow> compensate_pressure self raw_press = Inr 0"
  unfolding compensate_pressure_def pressure_var1_def Let_def by (rule if_P)

lemma guarded_division_returns:
  "\<exists>p. (if v = 0 then Inr 0
        else case truediv x v of Inl e \<Rightarrow> Inl e | Inr press \<Rightarrow> Inr (f press)) = Inr p"
  by (simp add: truediv_def)

lemma compensate_pressure_returns:
  "\<exists>p. compensate_pressure self raw_press = Inr p"
  unfolding compensate_pressure_def Let_def by (rule guarded_division_returns)

text \<open>
  Claim C3. Whenever the first polynomial term of the pressure compensation is zero, the
  function returns 0; a zero \<open>dig_P1\<close> makes the term zero; and on no input does the
  function raise: it always returns a value.
\<close>

theorem compensate_pressure_zero_guard:
  "(pressure_var1 self = 0 \<longrightarrow> compensate_pressure self raw_press = Inr 0)
   \<and> (dig_P1 self = 0 \<longrightarrow> pressure_var1 self = 0)
   \<and> (\<exists>p. compensate_pressure self raw_press = Inr p)"
proof (intro conjI impI)
  assume "pressure_var1 self = 0"
  then show "compensate_pressure self raw_press = Inr 0"
    by (rule compensate_pressure_guard)
next
  assume "dig_P1 self = 0"
  then show "pressure_var1 self = 0"
    by (simp add: pressure_var1_def Let_def)
next
  show "\<exists>p. compensate_pressure self raw_press = Inr p"
    by (rule compensate_pressure_returns)
qed

theorem compensate_pressure_zero_guard_witness:
  "dig_P1 (sim_calibration\<lparr>dig_P1 := 0, t_fine := 128422\<rparr>) = 0
   \<and> pressure_var1 (sim_calibration\<lparr>dig_P1 := 0, t_fine := 128422\<rparr>) = 0
   \<and> compensate_pressure (sim_calibration\<lparr>dig_P1 := 0, t_fine := 128422\<rparr>) 329728 = Inr 0"
proof -
  have "dig_P1 (sim_calibration\<lparr>dig_P1 := 0, t_fine := 128422\<rparr>) = 0"
    by simp
  with compensate_pressure_zero_guard
         [of "sim_calibration\<lparr>dig_P1 := 0, t_fine := 128422\<rparr>" 329728]
  show ?thesis by blast
qed

subsection \<open>Dew point\<close>

text \<open>
  Claim C4, evaluated on the code. At 25 degrees and 60 percent the function returns
  140093249/3947459, about 35.49 degrees, which is more than 18 degrees away from 16.7:
  line 281 adds \<open>humidity_percent / 100\<close> where the Magnus formula adds its
  natural logarithm.
\<close>

theorem calculate_dew_point_25_60:
  "calculate_dew_point 25 60 = Inr (140093249 / 3947459)
   \<and> \<not> \<bar>140093249 / 3947459 - 16.7\<bar> \<le> (0.2 :: real)
   \<and> (35 :: real) < 140093249 / 3947459"
  unfolding calculate_dew_point_def truediv_def Let_def by simp

section \<open>Properties of the battery monitor\<close>

subsection \<open>Reading the voltage\<close>

lemma truediv_Inr_iff: "truediv x y = Inr q \<longleftrightarrow> y \<noteq> 0 \<and> q = x / y"
  by (auto simp: truediv_def)

lemma read_battery_voltage_frame:
  assumes "read_battery_voltage self raw averaged = Inr (v, s)"
  shows "is_low_battery s = is_low_battery self"
    and "is_critical_battery s = is_critical_battery self"
    and "critical_voltage s = critical_voltage self"
    and "low_voltage s = low_voltage self"
    and "full_voltage s = full_voltage self"
    and "max_samples s = max_samples self"
    and "current_voltage s = v"
  using assms
  by (auto simp: read_battery_voltage_def Let_def split: if_splits sum.splits)

lemma read_battery_voltage_samples:
  assumes "read_battery_voltage self raw True = Inr (v, s)"
  shows "voltage_samples s \<noteq> []"
  using assms
  by (auto simp: read_battery_voltage_def Let_def truediv_def split: if_splits sum.splits)

lemma read_battery_voltage_unaveraged:
  "read_battery_voltage self raw False =
     Inr ((real_of_int raw / 65535) * vref self * voltage_divider_ratio self
            * calibration_factor self,
          self\<lparr>current_voltage := (real_of_int raw / 65535) * vref self
            * voltage_divider_ratio self * calibration_factor self\<rparr>)"
  by (simp add: read_battery_voltage_def Let_def)

lemma read_battery_voltage_averaged:
  "read_battery_voltage self raw True =
     (if next_window self raw = [] then Inl ZeroDivisionError
      else Inr (sum_list (next_window self raw) / real (length (next_window self raw)),
                self\<lparr>voltage_samples := next_window self raw,
                     current_voltage := sum_list (next_window self raw)
                                          / real (length (next_window self raw))\<rparr>))"
  by (simp add: read_battery_voltage_def next_window_def sample_voltage_def Let_def truediv_def)

lemma next_window_nonempty:
  assumes "0 < max_samples self \<or> voltage_samples self \<noteq> []"
  shows "next_window self raw \<noteq> []"
  using assms by (cases "voltage_samples self") (auto simp: next_window_def Let_def)

lemma read_battery_voltage_returns:
  assumes "0 < max_samples self \<or> voltage_samples self \<noteq> []"
  shows "\<exists>v s. read_battery_voltage self raw averaged = Inr (v, s)"
proof (cases averaged)
  case False
  then have eq: "averaged = False" by simp
  show ?thesis unfolding eq by (rule exI)+ (rule read_battery_voltage_unaveraged)
next
  case True
  then have eq: "averaged = True" by simp
  from assms have "next_window self raw \<noteq> []" by (rule next_window_nonempty)
  then show ?thesis unfolding eq read_battery_voltage_averaged by (simp only: if_False) blast
qed

subsection \<open>Percentage\<close>

lemma percentage_of_voltage_cases:
  "percentage_of_voltage self v =
     Inr (if v \<ge> full_voltage self then 100
          else if v \<le> critical_voltage self then 0
          else (v - critical_voltage self) / (full_voltage self - critical_voltage self) * 100)"
  by (simp add: percentage_of_voltage_def Let_def truediv_def)

lemma interpolation_bounds:
  fixes c f v :: real
  assumes "c < v" "v < f"
  shows "0 \<le> (v - c) / (f - c) * 100" and "(v - c) / (f - c) * 100 \<le> 100"
proof -
  have pos: "0 < f - c" using assms by simp
  show "0 \<le> (v - c) / (f - c) * 100" using assms pos by simp
  have "(v - c) / (f - c) \<le> 1" using assms pos by (simp add: divide_le_eq)
  then have "(v - c) / (f - c) * 100 \<le> 1 * 100" by (rule mult_right_mono) simp
  then show "(v - c) / (f - c) * 100 \<le> 100" by simp
qed

lemma interpolation_mono:
  fixes c f v w :: real
  assumes "c < f" "v \<le> w"
  shows "(v - c) / (f - c) * 100 \<le> (w - c) / (f - c) * 100"
  using assms by (simp add: divide_right_mono)

lemma percentage_value_range: "0 \<le> percentage_value self v \<and> percentage_value self v \<le> 100"
  unfolding percentage_value_def using interpolation_bounds [of "critical_voltage self" v "full_voltage self"]
  by auto

lemma percentage_value_mono: "v \<le> w \<Longrightarrow> percentage_value self v \<le> percentage_value self w"
  unfolding percentage_value_def
  using interpolation_bounds [of "critical_voltage self" v "full_voltage self"]
    interpolation_bounds [of "critical_voltage self" w "full_voltage self"]
    interpolation_mono [of "critical_voltage self" "full_voltage self" v w]
  by (auto simp: not_le)

subsection \<open>Frames\<close>

lemma same_flags_refl: "same_flags self self"
  by (simp add: same_flags_def)

lemma same_flags_trans: "same_flags s2 s1 \<Longrightarrow> same_flags s1 self \<Longrightarrow> same_flags s2 self"
  by (simp add: same_flags_def)

lemma read_battery_voltage_same_flags:
  "read_battery_voltage self raw averaged = Inr (v, s) \<Longrightarrow> same_flags s self"
  by (simp add: same_flags_def read_battery_voltage_frame)

lemma read_battery_voltage_ok:
  assumes "read_battery_voltage self raw averaged = Inr (v, s)" "pm_ok self"
  shows "pm_ok s"
proof (cases averaged)
  case True
  with assms(1) have "read_battery_voltage self raw True = Inr (v, s)" by simp
  then have "voltage_samples s \<noteq> []" by (rule read_battery_voltage_samples)
  then show ?thesis by (simp add: pm_ok_def)
next
  case False
  with assms show ?thesis
    by (auto simp: read_battery_voltage_unaveraged pm_ok_def)
qed

lemma get_battery_percentage_Inr:
  assumes "get_battery_percentage self raw = Inr (p, s)"
  obtains v s1 where "read_battery_voltage self raw True = Inr (v, s1)"
    and "percentage_of_voltage s1 v = Inr p"
    and "s = s1\<lparr>battery_percentage := p\<rparr>"
  using assms
  by (auto simp: get_battery_percentage_def split: sum.splits)

lemma get_battery_percentage_same_flags:
  assumes "get_battery_percentage self raw = Inr (p, s)"
  shows "same_flags s self"
proof -
  from assms obtain v s1 where r: "read_battery_voltage self raw True = Inr (v, s1)"
    and s: "s = s1\<lparr>battery_percentage := p\<rparr>"
    by (rule get_battery_percentage_Inr)
  from r have "same_flags s1 self" by (rule read_battery_voltage_same_flags)
  with s show ?thesis by (simp add: same_flags_def)
qed

lemma get_battery_percentage_ok:
  assumes "get_battery_percentage self raw = Inr (p, s)"
  shows "pm_ok s"
proof -
  from assms obtain v s1 where r: "read_battery_voltage self raw True = Inr (v, s1)"
    and s: "s = s1\<lparr>battery_percentage := p\<rparr>"
    by (rule get_battery_percentage_Inr)
  from r have "voltage_samples s1 \<noteq> []" by (rule read_battery_voltage_samples)
  with s show ?thesis by (simp add: pm_ok_def)
qed

lemma get_battery_percentage_returns:
  assumes "pm_ok self"
  shows "\<exists>p s. get_battery_percentage self raw = Inr (p, s)"
proof -
  from assms obtain v s1 where r: "read_battery_voltage self raw True = Inr (v, s1)"
    using read_battery_voltage_returns [of self raw True] by (auto simp: pm_ok_def)
  then show ?thesis
    by (simp add: get_battery_percentage_def percentage_of_voltage_cases)
qed

subsection \<open>Status and sleep time\<close>

lemma classify_voltage_flags:
  "is_critical_battery (snd (classify_voltage self v)) \<longleftrightarrow> fst (classify_voltage self v) = ''CRITICAL''"
  "is_low_battery (snd (classify_voltage self v)) \<longleftrightarrow>
     fst (classify_voltage self v) = ''CRITICAL'' \<or> fst (classify_voltage self v) = ''LOW''"
  "max_samples (snd (classify_voltage self v)) = max_samples self"
  "voltage_samples (snd (classify_voltage self v)) = voltage_samples self"
  by (simp_all add: classify_voltage_def)

lemma get_battery_status_Inr:
  assumes "get_battery_status self raw1 raw2 = Inr (st, s)"
  obtains v s1 p s2 where "read_battery_voltage self raw1 True = Inr (v, s1)"
    and "get_battery_percentage s1 raw2 = Inr (p, s2)"
    and "s = snd (classify_voltage s2 v)"
    and "st_state st = fst (classify_voltage s2 v)"
    and "st_voltage st = v" and "st_percentage st = p"
    and "st_is_low st = is_low_battery s" and "st_is_critical st = is_critical_battery s"
  using assms
  by (auto simp: get_battery_status_def Let_def split: sum.splits prod.splits)

lemma get_battery_status_eq:
  assumes "read_battery_voltage self raw1 True = Inr (v, s1)"
    and "get_battery_percentage s1 raw2 = Inr (p, s2)"
  shows "get_battery_status self raw1 raw2 =
           Inr (\<lparr>st_voltage = v, st_percentage = p,
                  st_state = fst (classify_voltage s2 v),
                  st_is_low = is_low_battery (snd (classify_voltage s2 v)),
                  st_is_critical = is_critical_battery (snd (classify_voltage s2 v))\<rparr>,
                snd (classify_voltage s2 v))"
  using assms by (simp add: get_battery_status_def Let_def split: prod.splits)

lemma get_battery_status_flags:
  assumes "get_battery_status self raw1 raw2 = Inr (st, s)"
  shows "is_critical_battery s \<longleftrightarrow> st_state st = ''CRITICAL''"
    and "is_low_battery s \<longleftrightarrow> st_state st = ''CRITICAL'' \<or> st_state st = ''LOW''"
    and "pm_ok s"
proof -
  from assms obtain v s1 p s2 where
    p: "get_battery_percentage s1 raw2 = Inr (p, s2)"
    and s: "s = snd (classify_voltage s2 v)"
    and st: "st_state st = fst (classify_voltage s2 v)"
    by (rule get_battery_status_Inr)
  from s st show "is_critical_battery s \<longleftrightarrow> st_state st = ''CRITICAL''"
    by (simp add: classify_voltage_flags)
  from s st show "is_low_battery s \<longleftrightarrow> st_state st = ''CRITICAL'' \<or> st_state st = ''LOW''"
    by (simp add: classify_voltage_flags)
  from p have "pm_ok s2" by (rule get_battery_percentage_ok)
  with s show "pm_ok s" by (simp add: pm_ok_def classify_voltage_flags)
qed

lemma get_suggested_sleep_time_Inr:
  assumes "get_suggested_sleep_time cfg self raw = Inr (n, s)"
  shows "n = sleep_for_flags cfg self" and "same_flags s self" and "pm_ok s"
proof -
  from assms obtain p where p: "get_battery_percentage self raw = Inr (p, s)"
    by (auto simp: get_suggested_sleep_time_def Let_def split: sum.splits if_splits)
  then show sf: "same_flags s self" by (rule get_battery_percentage_same_flags)
  from p show "pm_ok s" by (rule get_battery_percentage_ok)
  from assms p have "n = sleep_for_flags cfg s"
    by (auto simp: get_suggested_sleep_time_def sleep_for_flags_def Let_def split: if_splits)
  with sf show "n = sleep_for_flags cfg self"
    by (simp add: same_flags_def sleep_for_flags_def)
qed

lemma get_suggested_sleep_time_returns:
  assumes "pm_ok self"
  shows "\<exists>s. get_suggested_sleep_time cfg self raw = Inr (sleep_for_flags cfg self, s)"
proof -
  from assms obtain p s where p: "get_battery_percentage self raw = Inr (p, s)"
    using get_battery_percentage_returns by blast
  then have "same_flags s self" by (rule get_battery_percentage_same_flags)
  with p show ?thesis
    by (simp add: get_suggested_sleep_time_def sleep_for_flags_def same_flags_def Let_def)
qed

subsection \<open>Sequences of calls\<close>

lemma pm_step_same_flags:
  assumes "pm_step cfg self c = Inr s" "\<not> is_status_call c"
  shows "same_flags s self"
proof (cases c)
  case (Read_battery_voltage raw averaged)
  with assms show ?thesis
    by (cases "read_battery_voltage self raw averaged")
       (auto dest: read_battery_voltage_same_flags)
next
  case (Get_battery_percentage raw)
  with assms show ?thesis
    by (cases "get_battery_percentage self raw")
       (auto dest: get_battery_percentage_same_flags)
next
  case (Get_battery_status raw1 raw2)
  with assms show ?thesis by simp
next
  case (Is_battery_ok raw)
  with assms show ?thesis
    by (cases "read_battery_voltage self raw True")
       (auto simp: is_battery_ok_def dest: read_battery_voltage_same_flags)
next
  case Should_enter_low_power
  with assms show ?thesis by (simp add: same_flags_refl)
next
  case (Get_suggested_sleep_time raw)
  with assms show ?thesis
    by (cases "get_suggested_sleep_time cfg self raw")
       (auto dest: get_suggested_sleep_time_Inr(2))
next
  case (Calibrate actual raw)
  with assms show ?thesis
    by (auto simp: calibrate_def read_battery_voltage_unaveraged same_flags_def
             split: if_splits sum.splits)
qed

lemma calibrate_returns: "\<exists>r s. calibrate self actual raw = Inr (r, s)"
  by (simp add: calibrate_def read_battery_voltage_unaveraged truediv_def)

lemma calibrate_ok:
  "calibrate self actual raw = Inr (r, s) \<Longrightarrow> pm_ok self \<Longrightarrow> pm_ok s"
  by (auto simp: calibrate_def read_battery_voltage_unaveraged pm_ok_def
           split: if_splits sum.splits)

lemma get_battery_status_returns:
  assumes "pm_ok self"
  shows "\<exists>st s. get_battery_status self raw1 raw2 = Inr (st, s)"
proof -
  from assms obtain v s1 where r: "read_battery_voltage self raw1 True = Inr (v, s1)"
    using read_battery_voltage_returns [of self raw1 True] by (auto simp: pm_ok_def)
  from r assms have "pm_ok s1" by (rule read_battery_voltage_ok)
  then obtain p s2 where "get_battery_percentage s1 raw2 = Inr (p, s2)"
    using get_battery_percentage_returns by blast
  with r show ?thesis by (simp add: get_battery_status_eq)
qed

lemma pm_step_returns:
  assumes "pm_ok self"
  shows "\<exists>s. pm_step cfg self c = Inr s \<and> pm_ok s"
proof (cases c)
  case (Read_battery_voltage raw averaged)
  from assms obtain v s where r: "read_battery_voltage self raw averaged = Inr (v, s)"
    using read_battery_voltage_returns [of self raw averaged] by (auto simp: pm_ok_def)
  from r assms have "pm_ok s" by (rule read_battery_voltage_ok)
  with r Read_battery_voltage show ?thesis by simp
next
  case (Get_battery_percentage raw)
  from assms obtain p s where r: "get_battery_percentage self raw = Inr (p, s)"
    using get_battery_percentage_returns by blast
  then have "pm_ok s" by (rule get_battery_percentage_ok)
  with r Get_battery_percentage show ?thesis by simp
next
  case (Get_battery_status raw1 raw2)
  from assms obtain st s where r: "get_battery_status self raw1 raw2 = Inr (st, s)"
    using get_battery_status_returns by blast
  then have "pm_ok s" by (rule get_battery_status_flags(3))
  with r Get_battery_status show ?thesis by simp
next
  case (Is_battery_ok raw)
  from assms obtain v s where r: "read_battery_voltage self raw True = Inr (v, s)"
    using read_battery_voltage_returns [of self raw True] by (auto simp: pm_ok_def)
  from r assms have "pm_ok s" by (rule read_battery_voltage_ok)
  with r Is_battery_ok show ?thesis by (simp add: is_battery_ok_def)
next
  case Should_enter_low_power
  with assms show ?thesis by simp
next
  case (Get_suggested_sleep_time raw)
  from assms obtain s where
    r: "get_suggested_sleep_time cfg self raw = Inr (sleep_for_flags cfg self, s)"
    using get_suggested_sleep_time_returns by blast
  then have "pm_ok s" by (rule get_suggested_sleep_time_Inr(3))
  with r Get_suggested_sleep_time show ?thesis by simp
next
  case (Calibrate actual raw)
  obtain r s where r: "calibrate self actual raw = Inr (r, s)"
    using calibrate_returns by blast
  with assms have "pm_ok s" by (simp add: calibrate_ok)
  with r Calibrate show ?thesis by simp
qed

lemma pm_run_returns:
  "pm_ok self \<Longrightarrow> \<exists>s. pm_run cfg self cs = Inr s \<and> pm_ok s"
proof (induction cs arbitrary: self)
  case Nil
  then show ?case by simp
next
  case (Cons c cs)
  from Cons.prems obtain s1 where s1: "pm_step cfg self c = Inr s1" "pm_ok s1"
    using pm_step_returns by blast
  from Cons.IH [OF s1(2)] s1(1) show ?case by simp
qed

lemma pm_run_same_flags:
  "pm_run cfg self cs = Inr s \<Longrightarrow> \<forall>c \<in> set cs. \<not> is_status_call c \<Longrightarrow> same_flags s self"
proof (induction cs arbitrary: self)
  case Nil
  then show ?case by (simp add: same_flags_refl)
next
  case (Cons c cs)
  from Cons.prems(1) obtain s1 where s1: "pm_step cfg self c = Inr s1"
    and run: "pm_run cfg s1 cs = Inr s"
    by (auto split: sum.splits)
  from s1 Cons.prems(2) have "same_flags s1 self" by (simp add: pm_step_same_flags)
  moreover from run Cons.prems(2) have "same_flags s s1" by (simp add: Cons.IH)
  ultimately show ?case by (blast intro: same_flags_trans)
qed

lemma sleep_for_flags_cong:
  "same_flags s self \<Longrightarrow> sleep_for_flags cfg s = sleep_for_flags cfg self"
  by (simp add: same_flags_def sleep_for_flags_def)

lemma power_manager_init_ok: "pm_ok (power_manager_init cfg)"
  by (simp add: pm_ok_def power_manager_init_def)

lemma sleep_for_flags_init:
  "sleep_for_flags cfg (power_manager_init cfg) = SENSOR_READ_INTERVAL cfg"
  by (simp add: sleep_for_flags_def power_manager_init_def)

subsection \<open>Claims about percentage and classification\<close>

lemma percentage_of_voltage_value:
  "percentage_of_voltage self v = Inr (percentage_value self v)"
  by (simp add: percentage_of_voltage_cases percentage_value_def)

lemma get_battery_percentage_eq:
  assumes "read_battery_voltage self raw True = Inr (x, s)"
  shows "get_battery_percentage self raw =
           Inr (percentage_value s x, s\<lparr>battery_percentage := percentage_value s x\<rparr>)"
  using assms by (simp add: get_battery_percentage_def percentage_of_voltage_value)

text \<open>
  Claim C7. The battery percentage, as a function of the voltage, always lies between 0
  and 100 and is monotonically non-decreasing; it is 100 at and above the full voltage;
  with the critical voltage below the full voltage, as \<^verbatim>\<open>config.py\<close> has it, it is 0 at and
  below the critical voltage; strictly between the two it is the linear interpolation
  \<open>(voltage - critical) / (full - critical) * 100\<close>. \<^verbatim>\<open>get_battery_percentage\<close>
  returns and stores that function of the averaged voltage it reads.
\<close>

theorem battery_percentage_clamped_monotone:
  "(\<exists>p. percentage_of_voltage self v = Inr p \<and> 0 \<le> p \<and> p \<le> 100)
   \<and> (v \<le> w \<longrightarrow>
        (\<exists>p q. percentage_of_voltage self v = Inr p
               \<and> percentage_of_voltage self w = Inr q \<and> p \<le> q))
   \<and> (full_voltage self \<le> u \<longrightarrow> percentage_of_voltage self u = Inr 100)
   \<and> (critical_voltage self < full_voltage self \<longrightarrow> l \<le> critical_voltage self \<longrightarrow>
        percentage_of_voltage self l = Inr 0)
   \<and> (critical_voltage self < m \<and> m < full_voltage self \<longrightarrow>
        percentage_of_voltage self m =
          Inr ((m - critical_voltage self) / (full_voltage self - critical_voltage self)
                 * 100))
   \<and> (read_battery_voltage self raw True = Inr (x, s) \<longrightarrow>
        (\<exists>p. percentage_of_voltage s x = Inr p
             \<and> get_battery_percentage self raw = Inr (p, s\<lparr>battery_percentage := p\<rparr>)))"
proof (intro conjI impI)
  show "\<exists>p. percentage_of_voltage self v = Inr p \<and> 0 \<le> p \<and> p \<le> 100"
    using percentage_value_range [of self v] by (simp add: percentage_of_voltage_value)
next
  assume "v \<le> w"
  then have "percentage_value self v \<le> percentage_value self w"
    by (rule percentage_value_mono)
  then show "\<exists>p q. percentage_of_voltage self v = Inr p
                  \<and> percentage_of_voltage self w = Inr q \<and> p \<le> q"
    by (simp add: percentage_of_voltage_value)
next
  assume "full_voltage self \<le> u"
  then show "percentage_of_voltage self u = Inr 100"
    by (simp add: percentage_of_voltage_cases)
next
  assume "critical_voltage self < full_voltage self" "l \<le> critical_voltage self"
  then show "percentage_of_voltage self l = Inr 0"
    by (simp add: percentage_of_voltage_cases)
next
  assume "critical_voltage self < m \<and> m < full_voltage self"
  then show "percentage_of_voltage self m =
               Inr ((m - critical_voltage self) / (full_voltage self - critical_voltage self)
                      * 100)"
    by (simp add: percentage_of_voltage_cases)
next
  assume "read_battery_voltage self raw True = Inr (x, s)"
  then have "get_battery_percentage self raw =
               Inr (percentage_value s x, s\<lparr>battery_percentage := percentage_value s x\<rparr>)"
    by (rule get_battery_percentage_eq)
  then show "\<exists>p. percentage_of_voltage s x = Inr p
                 \<and> get_battery_percentage self raw = Inr (p, s\<lparr>battery_percentage := p\<rparr>)"
    by (simp add: percentage_of_voltage_value)
qed

lemma read_init_full_scale:
  "read_battery_voltage (power_manager_init config_py) 65535 True =
     Inr (6.6, (power_manager_init config_py)\<lparr>voltage_samples := [6.6], current_voltage := 6.6\<rparr>)"
  by (simp add: read_battery_voltage_averaged next_window_def sample_voltage_def
        power_manager_init_def config_py_def Let_def)

theorem battery_percentage_clamped_monotone_witness:
  "critical_voltage (power_manager_init config_py) < full_voltage (power_manager_init config_py)
   \<and> percentage_of_voltage (power_manager_init config_py) 3.6 = Inr 50
   \<and> percentage_of_voltage (power_manager_init config_py) 3.9 = Inr 75
   \<and> percentage_of_voltage (power_manager_init config_py) 4.2 = Inr 100
   \<and> percentage_of_voltage (power_manager_init config_py) 3.0 = Inr 0
   \<and> get_battery_percentage (power_manager_init config_py) 65535 =
        Inr (100, (power_manager_init config_py)
                    \<lparr>voltage_samples := [6.6], current_voltage := 6.6,
                      battery_percentage := 100\<rparr>)"
proof -
  let ?pm = "power_manager_init config_py"
  let ?s = "?pm\<lparr>voltage_samples := [6.6], current_voltage := 6.6\<rparr>"
  have th: "critical_voltage ?pm = 3.0" "full_voltage ?pm = 4.2"
    "critical_voltage ?s = 3.0" "full_voltage ?s = 4.2"
    by (simp_all add: power_manager_init_def config_py_def)
  from battery_percentage_clamped_monotone
         [of ?pm "3.6" "3.9" "4.2" "3.0" "3.6" 65535 "6.6" ?s]
  show ?thesis
    by (simp add: th read_init_full_scale percentage_of_voltage_cases)
qed


text \<open>
  Claim C8. The state is decided by the ordered checks: at most the critical voltage
  gives CRITICAL, else at most the low voltage gives LOW, else at least 0.95 times the
  full voltage gives FULL, else NORMAL. A voltage equal to the critical voltage is
  CRITICAL; a voltage equal to 0.95 times the full voltage is FULL when that value lies
  above the critical and the low voltage, as \<^verbatim>\<open>config.py\<close> has it.
  \<^verbatim>\<open>get_battery_status\<close> reports the state of the averaged voltage of its first sample.
\<close>

theorem battery_state_thresholds:
  "fst (classify_voltage self v) =
     (if v \<le> critical_voltage self then ''CRITICAL''
      else if v \<le> low_voltage self then ''LOW''
      else if full_voltage self * 0.95 \<le> v then ''FULL''
      else ''NORMAL'')
   \<and> fst (classify_voltage self (critical_voltage self)) = ''CRITICAL''
   \<and> (critical_voltage self < full_voltage self * 0.95
        \<and> low_voltage self < full_voltage self * 0.95 \<longrightarrow>
        fst (classify_voltage self (full_voltage self * 0.95)) = ''FULL'')
   \<and> (read_battery_voltage self raw1 True = Inr (x, s1)
        \<and> get_battery_percentage s1 raw2 = Inr (p, s2) \<longrightarrow>
        (\<exists>st s3. get_battery_status self raw1 raw2 = Inr (st, s3)
                 \<and> st_voltage st = x
                 \<and> st_state st = fst (classify_voltage s2 x)
                 \<and> s3 = snd (classify_voltage s2 x)))"
proof (intro conjI impI)
  show "fst (classify_voltage self v) =
     (if v \<le> critical_voltage self then ''CRITICAL''
      else if v \<le> low_voltage self then ''LOW''
      else if full_voltage self * 0.95 \<le> v then ''FULL''
      else ''NORMAL'')"
    by (simp add: classify_voltage_def)
next
  show "fst (classify_voltage self (critical_voltage self)) = ''CRITICAL''"
    by (simp add: classify_voltage_def)
next
  assume "critical_voltage self < full_voltage self * 0.95
          \<and> low_voltage self < full_voltage self * 0.95"
  then show "fst (classify_voltage self (full_voltage self * 0.95)) = ''FULL''"
    by (simp add: classify_voltage_def)
next
  assume "read_battery_voltage self raw1 True = Inr (x, s1)
          \<and> get_battery_percentage s1 raw2 = Inr (p, s2)"
  then have "get_battery_status self raw1 raw2 =
           Inr (\<lparr>st_voltage = x, st_percentage = p,
                  st_state = fst (classify_voltage s2 x),
                  st_is_low = is_low_battery (snd (classify_voltage s2 x)),
                  st_is_critical = is_critical_battery (snd (classify_voltage s2 x))\<rparr>,
                snd (classify_voltage s2 x))"
    by (simp add: get_battery_status_eq)
  then show "\<exists>st s3. get_battery_status self raw1 raw2 = Inr (st, s3)
                 \<and> st_voltage st = x
                 \<and> st_state st = fst (classify_voltage s2 x)
                 \<and> s3 = snd (classify_voltage s2 x)"
    by simp
qed

lemma percentage_after_full_scale:
  "get_battery_percentage
     ((power_manager_init config_py)\<lparr>voltage_samples := [6.6], current_voltage := 6.6\<rparr>)
     65535 =
   Inr (100, (power_manager_init config_py)
               \<lparr>voltage_samples := [6.6, 6.6], current_voltage := 6.6,
                 battery_percentage := 100\<rparr>)"
  by (simp add: get_battery_percentage_def read_battery_voltage_averaged next_window_def
        sample_voltage_def percentage_of_voltage_cases power_manager_init_def config_py_def
        Let_def)

theorem battery_state_thresholds_witness:
  "critical_voltage (power_manager_init config_py)
     < full_voltage (power_manager_init config_py) * 0.95
   \<and> low_voltage (power_manager_init config_py)
     < full_voltage (power_manager_init config_py) * 0.95
   \<and> fst (classify_voltage (power_manager_init config_py) 3.0) = ''CRITICAL''
   \<and> fst (classify_voltage (power_manager_init config_py) 3.99) = ''FULL''
   \<and> map_sum id (st_state \<circ> fst)
        (get_battery_status (power_manager_init config_py) 65535 65535) = Inr ''FULL''"
proof -
  let ?pm = "power_manager_init config_py"
  let ?s1 = "?pm\<lparr>voltage_samples := [6.6], current_voltage := 6.6\<rparr>"
  let ?s2 = "?pm\<lparr>voltage_samples := [6.6, 6.6], current_voltage := 6.6,
                   battery_percentage := 100\<rparr>"
  have th: "critical_voltage ?pm = 3.0" "full_voltage ?pm = 4.2" "low_voltage ?pm = 3.3"
    by (simp_all add: power_manager_init_def config_py_def)
  have c: "critical_voltage ?pm < full_voltage ?pm * 0.95
           \<and> low_voltage ?pm < full_voltage ?pm * 0.95"
    by (simp add: th)
  have cl: "fst (classify_voltage ?s2 6.6) = ''FULL''"
    by (simp add: classify_voltage_def power_manager_init_def config_py_def)
  have h: "read_battery_voltage ?pm 65535 True = Inr (6.6, ?s1)
           \<and> get_battery_percentage ?s1 65535 = Inr (100, ?s2)"
    using read_init_full_scale percentage_after_full_scale by blast
  note T = battery_state_thresholds [of ?pm "3.0" 65535 "6.6" ?s1 65535 100 ?s2]
  from T have a: "fst (classify_voltage ?pm (critical_voltage ?pm)) = ''CRITICAL''"
    by blast
  from T c have b: "fst (classify_voltage ?pm (full_voltage ?pm * 0.95)) = ''FULL''"
    by blast
  from T h obtain st s3 where g: "get_battery_status ?pm 65535 65535 = Inr (st, s3)"
    and st: "st_state st = fst (classify_voltage ?s2 6.6)"
    by blast
  from a b c g st cl show ?thesis by (simp add: th)
qed


subsection \<open>Sleep time\<close>

lemma status_after_two_zero_samples:
  "get_battery_status (power_manager_init config_py) 0 0 =
     Inr (\<lparr>st_voltage = 0, st_percentage = 0, st_state = ''CRITICAL'',
            st_is_low = True, st_is_critical = True\<rparr>,
          critical_after_two_zero_samples)"
  by (simp add: get_battery_status_def get_battery_percentage_def
        read_battery_voltage_averaged next_window_def sample_voltage_def
        percentage_of_voltage_cases classify_voltage_def power_manager_init_def
        config_py_def critical_after_two_zero_samples_def Let_def)

text \<open>
  What \<^verbatim>\<open>get_suggested_sleep_time\<close> computes. The result is 4 times the base interval
  when the flag \<^verbatim>\<open>is_critical_battery\<close> is set, twice the base interval when only
  \<^verbatim>\<open>is_low_battery\<close> is set, and the base interval otherwise: 1200, 600 and 300 seconds
  for the base interval 300. The flags are those that the last call of
  \<^verbatim>\<open>get_battery_status\<close> stored: directly after such a call the result is the multiple
  for the state which that call reported, whatever the flags were before it.
\<close>

lemma suggested_sleep_time_by_flags:
  "(0 < max_samples self \<longrightarrow>
      (\<exists>s. get_suggested_sleep_time cfg self raw =
             Inr (if is_critical_battery self then SENSOR_READ_INTERVAL cfg * 4
                  else if is_low_battery self then SENSOR_READ_INTERVAL cfg * 2
                  else SENSOR_READ_INTERVAL cfg, s)))
   \<and> (get_battery_status self0 r1 r2 = Inr (st, s1) \<longrightarrow>
      (\<exists>s2. get_suggested_sleep_time cfg s1 r3 =
              Inr (if st_state st = ''CRITICAL'' then SENSOR_READ_INTERVAL cfg * 4
                   else if st_state st = ''LOW'' then SENSOR_READ_INTERVAL cfg * 2
                   else SENSOR_READ_INTERVAL cfg, s2)))
   \<and> sleep_for_flags config_py self =
       (if is_critical_battery self then 1200
        else if is_low_battery self then 600 else 300)"
proof (intro conjI impI)
  assume "0 < max_samples self"
  then have "pm_ok self" by (simp add: pm_ok_def)
  then obtain s where
    "get_suggested_sleep_time cfg self raw = Inr (sleep_for_flags cfg self, s)"
    using get_suggested_sleep_time_returns by blast
  then show "\<exists>s. get_suggested_sleep_time cfg self raw =
             Inr (if is_critical_battery self then SENSOR_READ_INTERVAL cfg * 4
                  else if is_low_battery self then SENSOR_READ_INTERVAL cfg * 2
                  else SENSOR_READ_INTERVAL cfg, s)"
    unfolding sleep_for_flags_def by (rule exI)
next
  assume g: "get_battery_status self0 r1 r2 = Inr (st, s1)"
  then have "pm_ok s1" by (rule get_battery_status_flags(3))
  then obtain s2 where
    r: "get_suggested_sleep_time cfg s1 r3 = Inr (sleep_for_flags cfg s1, s2)"
    using get_suggested_sleep_time_returns by blast
  have "sleep_for_flags cfg s1 =
          (if st_state st = ''CRITICAL'' then SENSOR_READ_INTERVAL cfg * 4
           else if st_state st = ''LOW'' then SENSOR_READ_INTERVAL cfg * 2
           else SENSOR_READ_INTERVAL cfg)"
    using get_battery_status_flags(1,2) [OF g] by (auto simp: sleep_for_flags_def)
  with r show "\<exists>s2. get_suggested_sleep_time cfg s1 r3 =
              Inr (if st_state st = ''CRITICAL'' then SENSOR_READ_INTERVAL cfg * 4
                   else if st_state st = ''LOW'' then SENSOR_READ_INTERVAL cfg * 2
                   else SENSOR_READ_INTERVAL cfg, s2)"
    by simp
next
  show "sleep_for_flags config_py self =
       (if is_critical_battery self then 1200
        else if is_low_battery self then 600 else 300)"
    by (simp add: sleep_for_flags_def config_py_def)
qed

lemma suggested_sleep_time_by_flags_example:
  "0 < max_samples (power_manager_init config_py)
   \<and> map_sum id fst (get_suggested_sleep_time config_py (power_manager_init config_py) 20000)
       = Inr 300
   \<and> map_sum id (st_state \<circ> fst) (get_battery_status (power_manager_init config_py) 0 0)
       = Inr ''CRITICAL''
   \<and> map_sum id fst
        (get_suggested_sleep_time config_py critical_after_two_zero_samples 65535)
       = Inr 1200"
proof -
  let ?pm = "power_manager_init config_py"
  let ?st = "\<lparr>st_voltage = 0, st_percentage = 0, st_state = ''CRITICAL'',
              st_is_low = True, st_is_critical = True\<rparr>"
  have m: "0 < max_samples ?pm" by (simp add: power_manager_init_def)
  have f: "\<not> is_critical_battery ?pm" "\<not> is_low_battery ?pm"
    by (simp_all add: power_manager_init_def)
  have b: "SENSOR_READ_INTERVAL config_py = 300" by (simp add: config_py_def)
  note T = suggested_sleep_time_by_flags
             [of ?pm config_py 20000 ?pm 0 0 ?st critical_after_two_zero_samples 65535]
  from T m obtain s where
    a: "get_suggested_sleep_time config_py ?pm 20000 =
          Inr (if is_critical_battery ?pm then SENSOR_READ_INTERVAL config_py * 4
               else if is_low_battery ?pm then SENSOR_READ_INTERVAL config_py * 2
               else SENSOR_READ_INTERVAL config_py, s)"
    by blast
  from T status_after_two_zero_samples obtain s2 where
    c: "get_suggested_sleep_time config_py critical_after_two_zero_samples 65535 =
          Inr (if st_state ?st = ''CRITICAL'' then SENSOR_READ_INTERVAL config_py * 4
               else if st_state ?st = ''LOW'' then SENSOR_READ_INTERVAL config_py * 2
               else SENSOR_READ_INTERVAL config_py, s2)"
    by blast
  from m a c show ?thesis
    by (simp add: f b status_after_two_zero_samples)
qed

lemma sleep_time_fresh_zero:
  "get_suggested_sleep_time config_py (power_manager_init config_py) 0 =
     Inr (300, (power_manager_init config_py)
                 \<lparr>voltage_samples := [0], current_voltage := 0, battery_percentage := 0\<rparr>)"
  by (simp add: get_suggested_sleep_time_def get_battery_percentage_def
        read_battery_voltage_averaged next_window_def sample_voltage_def
        percentage_of_voltage_cases power_manager_init_def config_py_def Let_def)

text \<open>
  Claim C9: the suggested sleep time is 4 times the base interval when the battery state
  is CRITICAL, twice when it is LOW and the base interval otherwise, the state being
  recomputed from the latest averaged voltage. The code does not do this.
  \<^verbatim>\<open>get_suggested_sleep_time\<close> samples the battery on line 167 and drops the reading:
  a freshly constructed manager that samples a raw value of 0, a voltage of 0 volts,
  which lines 115-118 classify as CRITICAL, returns the base interval of 300 seconds and
  not 1200, and leaves both flags unset.
\<close>

theorem suggested_sleep_time_ignores_reading:
  "get_suggested_sleep_time config_py (power_manager_init config_py) 0 =
     Inr (300, (power_manager_init config_py)
                 \<lparr>voltage_samples := [0], current_voltage := 0, battery_percentage := 0\<rparr>)
   \<and> fst (classify_voltage (power_manager_init config_py) 0) = ''CRITICAL''
   \<and> SENSOR_READ_INTERVAL config_py * 4 = 1200"
proof (intro conjI)
  show "get_suggested_sleep_time config_py (power_manager_init config_py) 0 =
     Inr (300, (power_manager_init config_py)
                 \<lparr>voltage_samples := [0], current_voltage := 0, battery_percentage := 0\<rparr>)"
    by (rule sleep_time_fresh_zero)
  show "fst (classify_voltage (power_manager_init config_py) 0) = ''CRITICAL''"
    by (simp add: classify_voltage_def power_manager_init_def config_py_def)
  show "SENSOR_READ_INTERVAL config_py * 4 = 1200"
    by (simp add: config_py_def)
qed


text \<open>
  Claim C10. The result of \<^verbatim>\<open>get_suggested_sleep_time\<close> is decided by the two flags
  alone, and the call leaves them as they are; so does every sequence of calls of the
  other methods. Hence on a freshly constructed manager, after any calls other than
  \<^verbatim>\<open>get_battery_status\<close> and for every raw sample, the result is the base interval;
  and after a call of \<^verbatim>\<open>get_battery_status\<close> followed by any such calls, the result
  is the multiple for the state that call reported.
\<close>

theorem sleep_time_uses_stored_flags:
  "(get_suggested_sleep_time cfg self raw = Inr (n, s) \<longrightarrow>
      n = (if is_critical_battery self then SENSOR_READ_INTERVAL cfg * 4
           else if is_low_battery self then SENSOR_READ_INTERVAL cfg * 2
           else SENSOR_READ_INTERVAL cfg)
      \<and> is_critical_battery s = is_critical_battery self
      \<and> is_low_battery s = is_low_battery self)
   \<and> ((\<forall>c \<in> set cs. \<not> is_status_call c) \<and> pm_run cfg self cs = Inr s' \<longrightarrow>
      is_critical_battery s' = is_critical_battery self
      \<and> is_low_battery s' = is_low_battery self)
   \<and> ((\<forall>c \<in> set cs0. \<not> is_status_call c) \<longrightarrow>
      (\<exists>s0 s1. pm_run cfg (power_manager_init cfg) cs0 = Inr s0
               \<and> get_suggested_sleep_time cfg s0 raw0 = Inr (SENSOR_READ_INTERVAL cfg, s1)))
   \<and> (get_battery_status self1 r1 r2 = Inr (st, s2)
        \<and> (\<forall>c \<in> set cs1. \<not> is_status_call c) \<and> pm_run cfg s2 cs1 = Inr s3 \<longrightarrow>
      (\<exists>s4. get_suggested_sleep_time cfg s3 r3 =
              Inr (if st_state st = ''CRITICAL'' then SENSOR_READ_INTERVAL cfg * 4
                   else if st_state st = ''LOW'' then SENSOR_READ_INTERVAL cfg * 2
                   else SENSOR_READ_INTERVAL cfg, s4)))"
proof (intro conjI impI)
  assume a: "get_suggested_sleep_time cfg self raw = Inr (n, s)"
  from get_suggested_sleep_time_Inr(1) [OF a]
  show "n = (if is_critical_battery self then SENSOR_READ_INTERVAL cfg * 4
           else if is_low_battery self then SENSOR_READ_INTERVAL cfg * 2
           else SENSOR_READ_INTERVAL cfg)"
    by (simp add: sleep_for_flags_def)
  from get_suggested_sleep_time_Inr(2) [OF a]
  show "is_critical_battery s = is_critical_battery self"
    and "is_low_battery s = is_low_battery self"
    by (simp_all add: same_flags_def)
next
  assume a: "(\<forall>c \<in> set cs. \<not> is_status_call c) \<and> pm_run cfg self cs = Inr s'"
  then have "same_flags s' self" using pm_run_same_flags by blast
  then show "is_critical_battery s' = is_critical_battery self"
    and "is_low_battery s' = is_low_battery self"
    by (simp_all add: same_flags_def)
next
  assume a: "\<forall>c \<in> set cs0. \<not> is_status_call c"
  obtain s0 where r: "pm_run cfg (power_manager_init cfg) cs0 = Inr s0" and ok: "pm_ok s0"
    using pm_run_returns [OF power_manager_init_ok] by blast
  from r a have "same_flags s0 (power_manager_init cfg)" by (rule pm_run_same_flags)
  then have "sleep_for_flags cfg s0 = SENSOR_READ_INTERVAL cfg"
    by (simp add: sleep_for_flags_cong sleep_for_flags_init)
  with get_suggested_sleep_time_returns [OF ok, of cfg raw0] r
  show "\<exists>s0 s1. pm_run cfg (power_manager_init cfg) cs0 = Inr s0
               \<and> get_suggested_sleep_time cfg s0 raw0 = Inr (SENSOR_READ_INTERVAL cfg, s1)"
    by auto
next
  assume a: "get_battery_status self1 r1 r2 = Inr (st, s2)
        \<and> (\<forall>c \<in> set cs1. \<not> is_status_call c) \<and> pm_run cfg s2 cs1 = Inr s3"
  then have g: "get_battery_status self1 r1 r2 = Inr (st, s2)" by simp
  from a have sf: "same_flags s3 s2" using pm_run_same_flags by blast
  from g have "pm_ok s2" by (rule get_battery_status_flags(3))
  with a have "pm_ok s3" using pm_run_returns [of s2 cfg cs1] by auto
  then obtain s4 where
    r: "get_suggested_sleep_time cfg s3 r3 = Inr (sleep_for_flags cfg s3, s4)"
    using get_suggested_sleep_time_returns by blast
  have "sleep_for_flags cfg s2 =
          (if st_state st = ''CRITICAL'' then SENSOR_READ_INTERVAL cfg * 4
           else if st_state st = ''LOW'' then SENSOR_READ_INTERVAL cfg * 2
           else SENSOR_READ_INTERVAL cfg)"
    using get_battery_status_flags(1,2) [OF g] by (auto simp: sleep_for_flags_def)
  with r sf show "\<exists>s4. get_suggested_sleep_time cfg s3 r3 =
              Inr (if st_state st = ''CRITICAL'' then SENSOR_READ_INTERVAL cfg * 4
                   else if st_state st = ''LOW'' then SENSOR_READ_INTERVAL cfg * 2
                   else SENSOR_READ_INTERVAL cfg, s4)"
    by (simp add: sleep_for_flags_cong)
qed


lemma run_two_calls_fresh:
  "pm_run config_py (power_manager_init config_py) [Get_battery_percentage 0, Is_battery_ok 0] =
     Inr ((power_manager_init config_py)
            \<lparr>voltage_samples := [0, 0], current_voltage := 0, battery_percentage := 0\<rparr>)"
  by (simp add: get_battery_percentage_def is_battery_ok_def
        read_battery_voltage_averaged next_window_def sample_voltage_def
        percentage_of_voltage_cases power_manager_init_def config_py_def Let_def)

lemma run_unaveraged_read_after_critical:
  "pm_run config_py critical_after_two_zero_samples [Read_battery_voltage 65535 False] =
     Inr (critical_after_two_zero_samples\<lparr>current_voltage := 6.6\<rparr>)"
  by (simp add: read_battery_voltage_unaveraged critical_after_two_zero_samples_def
        power_manager_init_def config_py_def)

theorem sleep_time_uses_stored_flags_witness:
  "\<not> is_status_call (Get_battery_percentage 0)
   \<and> \<not> is_status_call (Is_battery_ok 0)
   \<and> \<not> is_status_call (Read_battery_voltage 65535 False)
   \<and> map_sum id fst (get_suggested_sleep_time config_py (power_manager_init config_py) 0)
       = Inr 300
   \<and> map_sum id fst
        (get_suggested_sleep_time config_py
           ((power_manager_init config_py)
              \<lparr>voltage_samples := [0, 0], current_voltage := 0, battery_percentage := 0\<rparr>) 0)
       = Inr 300
   \<and> map_sum id (st_state \<circ> fst) (get_battery_status (power_manager_init config_py) 0 0)
       = Inr ''CRITICAL''
   \<and> map_sum id fst
        (get_suggested_sleep_time config_py
           (critical_after_two_zero_samples\<lparr>current_voltage := 6.6\<rparr>) 65535)
       = Inr 1200"
proof -
  let ?pm = "power_manager_init config_py"
  let ?s = "?pm\<lparr>voltage_samples := [0], current_voltage := 0, battery_percentage := 0\<rparr>"
  let ?s0 = "?pm\<lparr>voltage_samples := [0, 0], current_voltage := 0, battery_percentage := 0\<rparr>"
  let ?st = "\<lparr>st_voltage = 0, st_percentage = 0, st_state = ''CRITICAL'',
              st_is_low = True, st_is_critical = True\<rparr>"
  let ?s3 = "critical_after_two_zero_samples\<lparr>current_voltage := 6.6\<rparr>"
  let ?cs0 = "[Get_battery_percentage 0, Is_battery_ok 0]"
  let ?cs1 = "[Read_battery_voltage 65535 False]"
  have b: "SENSOR_READ_INTERVAL config_py = 300" by (simp add: config_py_def)
  have n0: "\<forall>c \<in> set ?cs0. \<not> is_status_call c" by simp
  have n1: "\<forall>c \<in> set ?cs1. \<not> is_status_call c" by simp
  note T = sleep_time_uses_stored_flags
             [of config_py ?pm 0 300 ?s ?cs0 ?s0 ?cs0 0 ?pm 0 0 ?st
                 critical_after_two_zero_samples ?cs1 ?s3 65535]
  from T n0 run_two_calls_fresh obtain s1 where
    a: "get_suggested_sleep_time config_py ?s0 0 = Inr (SENSOR_READ_INTERVAL config_py, s1)"
    by auto
  from T status_after_two_zero_samples n1 run_unaveraged_read_after_critical obtain s4 where
    c: "get_suggested_sleep_time config_py ?s3 65535 =
          Inr (if st_state ?st = ''CRITICAL'' then SENSOR_READ_INTERVAL config_py * 4
               else if st_state ?st = ''LOW'' then SENSOR_READ_INTERVAL config_py * 2
               else SENSOR_READ_INTERVAL config_py, s4)"
    by blast
  from a c show ?thesis
    by (simp add: b sleep_time_fresh_zero status_after_two_zero_samples)
qed

section \<open>Properties of the transmission buffer\<close>

subsection \<open>What the methods do to the buffer\<close>

lemma data_buffer_buffer_data:
  "data_buffer (buffer_data cfg self t d) =
     (if int (length (data_buffer self)) + 1 > DATA_BUFFER_SIZE cfg
      then tl (data_buffer self @ [entry_of (t, d)])
      else data_buffer self @ [entry_of (t, d)])"
  by (simp add: buffer_data_def entry_of_def Let_def)

lemma data_buffer_buffer_data_drop:
  assumes "length (data_buffer self) \<le> nat (DATA_BUFFER_SIZE cfg)"
  shows "data_buffer (buffer_data cfg self t d) =
           drop (Suc (length (data_buffer self)) - nat (DATA_BUFFER_SIZE cfg))
                (data_buffer self @ [entry_of (t, d)])"
proof (cases "int (length (data_buffer self)) + 1 > DATA_BUFFER_SIZE cfg")
  case True
  with assms have k: "Suc (length (data_buffer self)) - nat (DATA_BUFFER_SIZE cfg) = Suc 0"
    by linarith
  have "drop (Suc 0) (data_buffer self @ [entry_of (t, d)])
          = tl (data_buffer self @ [entry_of (t, d)])"
    by (simp only: drop_Suc drop_0)
  with True show ?thesis unfolding k by (simp only: data_buffer_buffer_data if_True)
next
  case False
  then have k: "Suc (length (data_buffer self)) - nat (DATA_BUFFER_SIZE cfg) = 0"
    by linarith
  from False show ?thesis unfolding k by (simp only: data_buffer_buffer_data if_False drop_0)
qed

lemma length_buffer_data:
  assumes "length (data_buffer self) \<le> nat (DATA_BUFFER_SIZE cfg)"
  shows "length (data_buffer (buffer_data cfg self t d)) \<le> nat (DATA_BUFFER_SIZE cfg)"
  using assms by (simp add: data_buffer_buffer_data_drop)

lemma buffer_data_frame:
  "is_connected (buffer_data cfg self t d) = is_connected self"
  by (simp add: buffer_data_def Let_def)

lemma connect_frame:
  "data_buffer (fst (snd (connect nw st))) = data_buffer (fst st)"
  "sender_calls (snd (snd (connect nw st))) = sender_calls (snd st)"
  "requests_made (snd (snd (connect nw st))) = requests_made (snd st)"
  "is_connected (fst (snd (connect nw st))) = fst (connect nw st)"
  by (cases st; simp add: connect_def Let_def split: conn_outcome.splits)+

lemma request_frame:
  "data_buffer (fst (snd (request nw accepted st))) = data_buffer (fst st)"
  "sender_calls (snd (snd (request nw accepted st))) = sender_calls (snd st)"
  "requests_made (snd (snd (request nw accepted st))) = Suc (requests_made (snd st))"
  "is_connected (fst (snd (request nw accepted st))) = is_connected (fst st)"
  "fst (request nw accepted st) =
     (case response nw (requests_made (snd st)) of
        Status code \<Rightarrow> code \<in> set accepted | Raised \<Rightarrow> False)"
  by (cases st; simp add: request_def Let_def split: http_response.splits)+

lemma reconnect_frame:
  "data_buffer (fst (snd (reconnect nw st))) = data_buffer (fst st)"
  "sender_calls (snd (snd (reconnect nw st))) = sender_calls (snd st)"
  "requests_made (snd (snd (reconnect nw st))) = requests_made (snd st)"
  "is_connected (fst (snd (reconnect nw st))) = fst (reconnect nw st)"
  by (simp_all add: reconnect_def connect_frame)


lemma send_to_thingspeak_frame:
  "data_buffer (fst (snd (send_to_thingspeak cfg nw st d))) = data_buffer (fst st)"
  "sender_calls (snd (snd (send_to_thingspeak cfg nw st d))) = sender_calls (snd st) @ [d]"
  by (cases st; cases "connect nw (fst st, snd st\<lparr>sender_calls := sender_calls (snd st) @ [d]\<rparr>)";
      use connect_frame(1,2) [of nw "(fst st, snd st\<lparr>sender_calls := sender_calls (snd st) @ [d]\<rparr>)"]
      in \<open>simp add: send_to_thingspeak_def Let_def request_frame\<close>)+

lemma send_http_post_frame:
  "data_buffer (fst (snd (send_http_post cfg nw st d))) = data_buffer (fst st)"
  "sender_calls (snd (snd (send_http_post cfg nw st d))) = sender_calls (snd st) @ [d]"
  by (cases st; cases "connect nw (fst st, snd st\<lparr>sender_calls := sender_calls (snd st) @ [d]\<rparr>)";
      use connect_frame(1,2) [of nw "(fst st, snd st\<lparr>sender_calls := sender_calls (snd st) @ [d]\<rparr>)"]
      in \<open>simp add: send_http_post_def Let_def request_frame\<close>)+

lemma send_to_thingspeak_connected:
  assumes "USE_THINGSPEAK cfg" and "is_connected (fst st)"
  shows "send_to_thingspeak cfg nw st d =
           request nw [200] (fst st, snd st\<lparr>sender_calls := sender_calls (snd st) @ [d]\<rparr>)"
  using assms by (cases st) (simp add: send_to_thingspeak_def Let_def)

lemma send_configured_frame:
  "data_buffer (fst (snd (send_configured cfg nw st d))) = data_buffer (fst st)"
  "sender_calls (snd (snd (send_configured cfg nw st d))) =
     sender_calls (snd st) @ (if USE_THINGSPEAK cfg \<or> USE_HTTP_POST cfg then [d] else [])"
  by (simp_all add: send_configured_def send_to_thingspeak_frame send_http_post_frame)

lemma send_configured_connected:
  assumes "USE_THINGSPEAK cfg" and "is_connected (fst st)"
  shows "fst (send_configured cfg nw st d) = (response nw (requests_made (snd st)) = Status 200)"
    and "is_connected (fst (snd (send_configured cfg nw st d)))"
    and "requests_made (snd (snd (send_configured cfg nw st d))) = Suc (requests_made (snd st))"
  using assms
  by (simp_all add: send_configured_def send_to_thingspeak_connected request_frame
        split: http_response.splits)

subsection \<open>The loop\<close>

lemma length_loop_outcomes: "length (loop_outcomes cfg nw es st) = length es"
  by (induction es arbitrary: st) (simp_all add: Let_def split: prod.splits)

lemma failed_of_Nil [simp]: "failed_of [] oks = []"
  by (simp add: failed_of_def)

lemma failed_of_Cons [simp]:
  "failed_of (e # es) (ok # oks) = (if ok then failed_of es oks else e # failed_of es oks)"
  by (simp add: failed_of_def)

lemma subseq_failed_of: "subseq (failed_of es oks) es"
proof (induction es arbitrary: oks)
  case Nil
  show ?case by simp
next
  case (Cons e es)
  show ?case
  proof (cases oks)
    case Nil
    then show ?thesis by (simp add: failed_of_def)
  next
    case (Cons ok oks')
    with Cons.IH [of oks'] show ?thesis by (cases ok) (simp_all add: list_emb_Cons)
  qed
qed

lemma length_failed_of:
  "length es = length oks \<Longrightarrow>
     length (failed_of es oks) + length (filter id oks) = length es"
  by (induction es oks rule: list_induct2) simp_all

lemma failed_of_all_ok:
  "\<forall>ok \<in> set oks. ok \<Longrightarrow> failed_of es oks = []"
  by (simp add: failed_of_def filter_empty_conv) (metis set_zip_rightD prod.collapse)

lemma failed_of_none_ok:
  "length es = length oks \<Longrightarrow> \<forall>ok \<in> set oks. \<not> ok \<Longrightarrow> failed_of es oks = es"
  by (induction es oks rule: list_induct2) auto

lemma transmit_loop_count:
  "fst (transmit_loop cfg nw es (c, f, st)) =
     c + int (length (filter id (loop_outcomes cfg nw es st)))"
proof (induction es arbitrary: c f st)
  case Nil
  show ?case by simp
next
  case (Cons e es)
  obtain ok st1 where s: "send_configured cfg nw st (entry_data e) = (ok, st1)"
    by (cases "send_configured cfg nw st (entry_data e)")
  show ?case
  proof (cases ok)
    case True
    with s Cons.IH [of "c + 1" f st1] show ?thesis by simp
  next
    case False
    with s Cons.IH [of c "f @ [e]" st1] show ?thesis by simp
  qed
qed

lemma transmit_loop_failed:
  "fst (snd (transmit_loop cfg nw es (c, f, st))) =
     f @ failed_of es (loop_outcomes cfg nw es st)"
proof (induction es arbitrary: c f st)
  case Nil
  show ?case by simp
next
  case (Cons e es)
  obtain ok st1 where s: "send_configured cfg nw st (entry_data e) = (ok, st1)"
    by (cases "send_configured cfg nw st (entry_data e)")
  show ?case
  proof (cases ok)
    case True
    with s Cons.IH [of "c + 1" f st1] show ?thesis by simp
  next
    case False
    with s Cons.IH [of c "f @ [e]" st1] show ?thesis by simp
  qed
qed

lemma transmit_loop_buffer:
  "data_buffer (fst (snd (snd (transmit_loop cfg nw es (c, f, st))))) = data_buffer (fst st)"
proof (induction es arbitrary: c f st)
  case Nil
  show ?case by simp
next
  case (Cons e es)
  obtain ok st1 where s: "send_configured cfg nw st (entry_data e) = (ok, st1)"
    by (cases "send_configured cfg nw st (entry_data e)")
  from s have d: "data_buffer (fst st1) = data_buffer (fst st)"
    using send_configured_frame(1) [of cfg nw st "entry_data e"] by simp
  show ?case
  proof (cases ok)
    case True
    with s d Cons.IH [of "c + 1" f st1] show ?thesis by simp
  next
    case False
    with s d Cons.IH [of c "f @ [e]" st1] show ?thesis by simp
  qed
qed

lemma transmit_loop_calls:
  "sender_calls (snd (snd (snd (transmit_loop cfg nw es (c, f, st))))) =
     sender_calls (snd st) @
       (if USE_THINGSPEAK cfg \<or> USE_HTTP_POST cfg then map entry_data es else [])"
proof (induction es arbitrary: c f st)
  case Nil
  show ?case by simp
next
  case (Cons e es)
  obtain ok st1 where s: "send_configured cfg nw st (entry_data e) = (ok, st1)"
    by (cases "send_configured cfg nw st (entry_data e)")
  from s have d: "sender_calls (snd st1) =
      sender_calls (snd st) @
        (if USE_THINGSPEAK cfg \<or> USE_HTTP_POST cfg then [entry_data e] else [])"
    using send_configured_frame(2) [of cfg nw st "entry_data e"] by simp
  show ?case
  proof (cases ok)
    case True
    with s d Cons.IH [of "c + 1" f st1] show ?thesis by simp
  next
    case False
    with s d Cons.IH [of c "f @ [e]" st1] show ?thesis by simp
  qed
qed

lemma loop_outcomes_connected:
  assumes "USE_THINGSPEAK cfg" and "is_connected (fst st)"
  shows "loop_outcomes cfg nw es st =
           map (\<lambda>i. response nw (requests_made (snd st) + i) = Status 200) [0..<length es]"
  using assms(2)
proof (induction es arbitrary: st)
  case Nil
  show ?case by simp
next
  case (Cons e es)
  obtain ok st1 where s: "send_configured cfg nw st (entry_data e) = (ok, st1)"
    by (cases "send_configured cfg nw st (entry_data e)")
  from send_configured_connected [OF assms(1) Cons.prems, of nw "entry_data e"] s
  have ok: "ok = (response nw (requests_made (snd st)) = Status 200)"
    and c1: "is_connected (fst st1)"
    and r1: "requests_made (snd st1) = Suc (requests_made (snd st))"
    by simp_all
  have "[0..<length (e # es)] = 0 # map Suc [0..<length es]"
    by (simp add: upt_conv_Cons map_Suc_upt del: upt_Suc)
  with s ok r1 Cons.IH [OF c1] show ?case
    by (simp add: comp_def del: upt_Suc)
qed


subsection \<open>The drain\<close>

lemma transmit_buffered_data_empty:
  "data_buffer (fst st) = [] \<Longrightarrow> transmit_buffered_data cfg nw st = (0, st)"
  by (cases st) (simp add: transmit_buffered_data_def)

lemma transmit_buffered_data_no_connection:
  "data_buffer (fst st) \<noteq> [] \<Longrightarrow> \<not> fst (reconnect nw st) \<Longrightarrow>
     transmit_buffered_data cfg nw st = (0, snd (reconnect nw st))"
  by (cases st; cases "connect nw st")
     (auto simp: transmit_buffered_data_def reconnect_def split: if_splits)

lemma transmit_buffered_data_drain:
  assumes "data_buffer (fst st) \<noteq> []" and "fst (reconnect nw st)"
  shows "transmit_buffered_data cfg nw st =
           (let r = transmit_loop cfg nw (data_buffer (fst st)) (0, [], snd (reconnect nw st))
            in (fst r, (fst (snd (snd r)))\<lparr>data_buffer := fst (snd r)\<rparr>, snd (snd (snd r))))"
proof -
  obtain self w where st: "st = (self, w)" by (cases st)
  obtain ok self1 w1 where r: "reconnect nw (self, w) = (ok, self1, w1)"
    by (cases "reconnect nw (self, w)")
  from reconnect_frame(1) [of nw "(self, w)"] r
  have b: "data_buffer self1 = data_buffer self" by simp
  from assms st r have ok: "ok" by simp
  have r': "(if \<not> is_connected self then connect nw (self, w) else (True, self, w))
              = (ok, self1, w1)"
    using r by (simp add: reconnect_def)
  from assms(1) st have ne: "data_buffer self \<noteq> []" by simp
  show ?thesis
    unfolding st transmit_buffered_data_def
    by (simp only: Let_def prod.case r' ne if_False ok not_True_eq_False b r fst_conv snd_conv
          split: prod.splits) (simp add: split_beta)
qed

lemma transmit_buffered_data_subseq:
  "subseq (data_buffer (fst (snd (transmit_buffered_data cfg nw st)))) (data_buffer (fst st))"
proof (cases "data_buffer (fst st) = []")
  case True
  then show ?thesis by (simp add: transmit_buffered_data_empty)
next
  case ne: False
  show ?thesis
  proof (cases "fst (reconnect nw st)")
    case False
    with ne show ?thesis
      by (simp add: transmit_buffered_data_no_connection reconnect_frame)
  next
    case True
    with ne show ?thesis
      by (simp add: transmit_buffered_data_drain Let_def transmit_loop_failed subseq_failed_of)
  qed
qed

lemma transmit_buffered_data_length:
  "length (data_buffer (fst (snd (transmit_buffered_data cfg nw st))))
     \<le> length (data_buffer (fst st))"
  using transmit_buffered_data_subseq by (rule list_emb_length)


subsection \<open>Capacity\<close>

lemma send_data_length:
  assumes "length (data_buffer (fst st)) \<le> nat (DATA_BUFFER_SIZE cfg)"
  shows "length (data_buffer (fst (snd (send_data cfg nw st t d)))) \<le> nat (DATA_BUFFER_SIZE cfg)"
proof -
  define st1 where
    "st1 = (if data_buffer (fst st) \<noteq> [] then snd (transmit_buffered_data cfg nw st) else st)"
  have l1: "length (data_buffer (fst st1)) \<le> nat (DATA_BUFFER_SIZE cfg)"
    using assms transmit_buffered_data_length [of cfg nw st] by (simp add: st1_def)
  obtain ok self2 w2 where s: "send_configured cfg nw st1 d = (ok, self2, w2)"
    by (cases "send_configured cfg nw st1 d")
  from send_configured_frame(1) [of cfg nw st1 d] s
  have "data_buffer self2 = data_buffer (fst st1)" by simp
  with l1 have l2: "length (data_buffer self2) \<le> nat (DATA_BUFFER_SIZE cfg)" by simp
  have "send_data cfg nw st t d =
          (if \<not> ok then (ok, buffer_data cfg self2 t d, w2) else (ok, self2, w2))"
    using s by (simp add: send_data_def st1_def [symmetric])
  with l2 length_buffer_data [OF l2] show ?thesis by simp
qed

lemma reachable_within_capacity:
  "reachable cfg nw st \<Longrightarrow> length (data_buffer (fst st)) \<le> nat (DATA_BUFFER_SIZE cfg)"
proof (induction rule: reachable.induct)
  case r_init
  show ?case by (simp add: wifi_manager_init_def)
next
  case (r_connect st)
  then show ?case by (simp add: connect_frame)
next
  case (r_disconnect self w)
  then show ?case by (simp add: disconnect_def)
next
  case (r_thingspeak st data)
  then show ?case by (simp add: send_to_thingspeak_frame)
next
  case (r_http_post st data)
  then show ?case by (simp add: send_http_post_frame)
next
  case (r_buffer self w timestamp data)
  then show ?case by (simp add: length_buffer_data)
next
  case (r_transmit st)
  with transmit_buffered_data_length [of cfg nw st] show ?case by simp
next
  case (r_send st timestamp data)
  from r_send.IH show ?case by (rule send_data_length)
qed

lemma drop_append_le: "k \<le> length zs \<Longrightarrow> drop k zs @ ys = drop k (zs @ ys)"
  by simp

lemma buffer_all_drop:
  assumes "length (data_buffer self) \<le> nat (DATA_BUFFER_SIZE cfg)"
  shows "data_buffer (buffer_all cfg self tds) =
           drop (length (data_buffer self) + length tds - nat (DATA_BUFFER_SIZE cfg))
                (data_buffer self @ map entry_of tds)"
  using assms
proof (induction tds arbitrary: self)
  case Nil
  then show ?case by simp
next
  case (Cons td tds)
  obtain t d where td: "td = (t, d)" by (cases td)
  let ?self1 = "buffer_data cfg self t d"
  let ?k = "Suc (length (data_buffer self)) - nat (DATA_BUFFER_SIZE cfg)"
  have b1: "data_buffer ?self1 = drop ?k (data_buffer self @ [entry_of (t, d)])"
    using Cons.prems by (rule data_buffer_buffer_data_drop)
  have l1: "length (data_buffer ?self1) \<le> nat (DATA_BUFFER_SIZE cfg)"
    using Cons.prems by (rule length_buffer_data)
  have k: "?k \<le> Suc (length (data_buffer self))" by simp
  have "data_buffer (buffer_all cfg ?self1 tds) =
          drop (length (data_buffer ?self1) + length tds - nat (DATA_BUFFER_SIZE cfg))
               (data_buffer ?self1 @ map entry_of tds)"
    using l1 by (rule Cons.IH)
  also have "data_buffer ?self1 @ map entry_of tds =
               drop ?k (data_buffer self @ entry_of (t, d) # map entry_of tds)"
    using k drop_append_le [of ?k "data_buffer self @ [entry_of (t, d)]" "map entry_of tds"]
    by (simp add: b1)
  also have "drop (length (data_buffer ?self1) + length tds - nat (DATA_BUFFER_SIZE cfg)) \<dots> =
               drop (length (data_buffer self) + length (td # tds) - nat (DATA_BUFFER_SIZE cfg))
                    (data_buffer self @ entry_of (t, d) # map entry_of tds)"
  proof -
    have n1: "length (data_buffer ?self1) = Suc (length (data_buffer self)) - ?k"
      by (simp add: b1)
    have "length (data_buffer ?self1) + length tds - nat (DATA_BUFFER_SIZE cfg) + ?k =
            length (data_buffer self) + length (td # tds) - nat (DATA_BUFFER_SIZE cfg)"
      unfolding n1 using Cons.prems by simp
    then show ?thesis by (simp only: drop_drop)
  qed
  finally show ?case by (simp add: td)
qed


lemma after_three_failed_sends_flaky: "after_three_failed_sends config_py flaky_net = three_buffered"
  unfolding after_three_failed_sends_def
  by (simp add: three_buffered_def send_data_def
        send_configured_def send_to_thingspeak_def transmit_buffered_data_def connect_def
        buffer_data_def wifi_manager_init_def world_init_def flaky_net_def config_py_def
        entry_of_def Let_def)

lemma after_three_failed_sends_lossy: "after_three_failed_sends config_py lossy_net = three_buffered"
  unfolding after_three_failed_sends_def
  by (simp add: three_buffered_def send_data_def
        send_configured_def send_to_thingspeak_def transmit_buffered_data_def connect_def
        buffer_data_def wifi_manager_init_def world_init_def lossy_net_def config_py_def
        entry_of_def Let_def)

lemma drain_flaky:
  "transmit_buffered_data config_py flaky_net three_buffered =
     (3, \<lparr>is_connected = True, connection_attempts = 0, last_connection_time = 100,
           failed_transmissions = 0, data_buffer = []\<rparr>,
         \<lparr>connect_calls = 6, requests_made = 3, sender_calls = [1, 2, 3, 1, 2, 3]\<rparr>)"
  by (simp add: three_buffered_def send_configured_def send_to_thingspeak_def
        transmit_buffered_data_def connect_def request_def flaky_net_def config_py_def
        entry_of_def Let_def)

lemma drain_lossy:
  "transmit_buffered_data config_py lossy_net three_buffered =
     (2, \<lparr>is_connected = True, connection_attempts = 0, last_connection_time = 100,
           failed_transmissions = 0, data_buffer = [entry_of (20, 2)]\<rparr>,
         \<lparr>connect_calls = 6, requests_made = 3, sender_calls = [1, 2, 3, 1, 2, 3]\<rparr>)"
  by (simp add: three_buffered_def send_configured_def send_to_thingspeak_def
        transmit_buffered_data_def connect_def request_def lossy_net_def config_py_def
        entry_of_def Let_def)

lemma drain_dead:
  "transmit_buffered_data config_py dead_net three_buffered =
     (0, \<lparr>is_connected = False, connection_attempts = 6, last_connection_time = 0,
           failed_transmissions = 0,
           data_buffer = [entry_of (10, 1), entry_of (20, 2), entry_of (30, 3)]\<rparr>,
         \<lparr>connect_calls = 6, requests_made = 0, sender_calls = [1, 2, 3]\<rparr>)"
  by (simp add: three_buffered_def
        transmit_buffered_data_def connect_def dead_net_def config_py_def
        entry_of_def Let_def)

lemma reconnect_three_buffered:
  "fst (reconnect flaky_net three_buffered)"
  "fst (reconnect lossy_net three_buffered)"
  "\<not> fst (reconnect dead_net three_buffered)"
  by (simp_all add: reconnect_def connect_def three_buffered_def flaky_net_def lossy_net_def
        dead_net_def Let_def)

lemma drain_outcomes_three_buffered:
  "drain_outcomes config_py flaky_net three_buffered = [True, True, True]"
  "drain_outcomes config_py lossy_net three_buffered = [True, False, True]"
  by (simp_all add: drain_outcomes_def reconnect_def connect_def three_buffered_def
        flaky_net_def lossy_net_def send_configured_def send_to_thingspeak_def request_def
        config_py_def Let_def)


lemma transmit_buffered_data_drain_result:
  assumes "data_buffer (fst st) \<noteq> []" and "fst (reconnect nw st)"
  shows "fst (transmit_buffered_data cfg nw st) =
           int (length (filter id (drain_outcomes cfg nw st)))"
    and "data_buffer (fst (snd (transmit_buffered_data cfg nw st))) =
           failed_of (data_buffer (fst st)) (drain_outcomes cfg nw st)"
    and "sender_calls (snd (snd (transmit_buffered_data cfg nw st))) =
           sender_calls (snd st) @
             (if USE_THINGSPEAK cfg \<or> USE_HTTP_POST cfg
              then map entry_data (data_buffer (fst st)) else [])"
  using assms
  by (simp_all add: transmit_buffered_data_drain Let_def drain_outcomes_def
        transmit_loop_count transmit_loop_failed transmit_loop_calls reconnect_frame)

lemma transmit_buffered_data_idle:
  assumes "\<not> (data_buffer (fst st) \<noteq> [] \<and> fst (reconnect nw st))"
  shows "fst (transmit_buffered_data cfg nw st) = 0"
    and "data_buffer (fst (snd (transmit_buffered_data cfg nw st))) = data_buffer (fst st)"
    and "sender_calls (snd (snd (transmit_buffered_data cfg nw st))) = sender_calls (snd st)"
  using assms
  by (cases "data_buffer (fst st) = []";
      simp add: transmit_buffered_data_empty transmit_buffered_data_no_connection
        reconnect_frame)+

lemma length_drain_outcomes:
  "length (drain_outcomes cfg nw st) = length (data_buffer (fst st))"
  by (simp add: drain_outcomes_def length_loop_outcomes)

lemma transmit_buffered_data_count:
  "fst (transmit_buffered_data cfg nw st) =
     int (length (data_buffer (fst st)))
       - int (length (data_buffer (fst (snd (transmit_buffered_data cfg nw st)))))"
proof (cases "data_buffer (fst st) \<noteq> [] \<and> fst (reconnect nw st)")
  case True
  from length_failed_of [of "data_buffer (fst st)" "drain_outcomes cfg nw st"]
  have "length (failed_of (data_buffer (fst st)) (drain_outcomes cfg nw st))
          + length (filter id (drain_outcomes cfg nw st)) = length (data_buffer (fst st))"
    by (simp add: length_drain_outcomes)
  with True show ?thesis
    by (simp add: transmit_buffered_data_drain_result)
next
  case False
  then show ?thesis by (simp add: transmit_buffered_data_idle)
qed

lemma drain_outcomes_all_accepted:
  assumes "fst (reconnect nw st)" and "USE_THINGSPEAK cfg"
    and "\<forall>i < length (data_buffer (fst st)). response nw (requests_made (snd st) + i) = Status 200"
  shows "\<forall>ok \<in> set (drain_outcomes cfg nw st). ok"
proof -
  have "is_connected (fst (snd (reconnect nw st)))"
    using assms(1) by (simp add: reconnect_frame)
  from loop_outcomes_connected [OF assms(2) this, of nw "data_buffer (fst st)"]
  have "drain_outcomes cfg nw st =
          map (\<lambda>i. response nw (requests_made (snd st) + i) = Status 200)
            [0..<length (data_buffer (fst st))]"
    by (simp add: drain_outcomes_def reconnect_frame)
  with assms(3) show ?thesis by simp
qed

text \<open>
  Claim C6. A drain that reaches its loop (the buffer is not empty and the connection
  check of lines 276-278 succeeds) calls the configured sender once for every buffered
  entry, oldest first; the entries whose call fails remain, in their order, and the
  others are removed; the result counts the calls that succeeded. When every call
  succeeds, as when every request is answered with status 200, the buffer ends empty and
  the result is the number of entries. A drain that does not reach its loop returns 0
  and leaves the buffer and the sender alone. In every case what remains is a
  subsequence of the buffer and the result is the number of entries removed.
\<close>

theorem transmit_buffered_data_drains_in_order:
  "(transmit_buffered_data cfg nwa sta = (na, selfa, wa) \<longrightarrow>
       subseq (data_buffer selfa) (data_buffer (fst sta))
     \<and> na = int (length (data_buffer (fst sta))) - int (length (data_buffer selfa)))
   \<and> (data_buffer (fst stb) \<noteq> [] \<and> fst (reconnect nwb stb)
        \<and> transmit_buffered_data cfg nwb stb = (nb, selfb, wb) \<longrightarrow>
       length (drain_outcomes cfg nwb stb) = length (data_buffer (fst stb))
     \<and> data_buffer selfb = failed_of (data_buffer (fst stb)) (drain_outcomes cfg nwb stb)
     \<and> nb = int (length (filter id (drain_outcomes cfg nwb stb)))
     \<and> sender_calls wb =
         sender_calls (snd stb) @
           (if USE_THINGSPEAK cfg \<or> USE_HTTP_POST cfg
            then map entry_data (data_buffer (fst stb)) else []))
   \<and> (data_buffer (fst stc) \<noteq> [] \<and> fst (reconnect nwc stc)
        \<and> (\<forall>ok \<in> set (drain_outcomes cfg nwc stc). ok)
        \<and> transmit_buffered_data cfg nwc stc = (nc, selfc, wc) \<longrightarrow>
       data_buffer selfc = [] \<and> nc = int (length (data_buffer (fst stc))))
   \<and> (fst (reconnect nwc stc) \<and> USE_THINGSPEAK cfg
        \<and> (\<forall>i < length (data_buffer (fst stc)).
              response nwc (requests_made (snd stc) + i) = Status 200) \<longrightarrow>
       (\<forall>ok \<in> set (drain_outcomes cfg nwc stc). ok))
   \<and> (\<not> (data_buffer (fst std) \<noteq> [] \<and> fst (reconnect nwd std))
        \<and> transmit_buffered_data cfg nwd std = (nd, selfd, wd) \<longrightarrow>
       nd = 0 \<and> data_buffer selfd = data_buffer (fst std)
     \<and> sender_calls wd = sender_calls (snd std))"
proof (intro conjI impI)
  assume a: "transmit_buffered_data cfg nwa sta = (na, selfa, wa)"
  from transmit_buffered_data_subseq [of cfg nwa sta] a
  show "subseq (data_buffer selfa) (data_buffer (fst sta))" by simp
  from transmit_buffered_data_count [of cfg nwa sta] a
  show "na = int (length (data_buffer (fst sta))) - int (length (data_buffer selfa))" by simp
next
  assume a: "data_buffer (fst stb) \<noteq> [] \<and> fst (reconnect nwb stb)
        \<and> transmit_buffered_data cfg nwb stb = (nb, selfb, wb)"
  then have ne: "data_buffer (fst stb) \<noteq> []" and c: "fst (reconnect nwb stb)"
    and e: "transmit_buffered_data cfg nwb stb = (nb, selfb, wb)"
    by simp_all
  show "length (drain_outcomes cfg nwb stb) = length (data_buffer (fst stb))"
    by (rule length_drain_outcomes)
  from transmit_buffered_data_drain_result(2) [OF ne c, of cfg] e
  show "data_buffer selfb = failed_of (data_buffer (fst stb)) (drain_outcomes cfg nwb stb)"
    by simp
  from transmit_buffered_data_drain_result(1) [OF ne c, of cfg] e
  show "nb = int (length (filter id (drain_outcomes cfg nwb stb)))"
    by simp
  from transmit_buffered_data_drain_result(3) [OF ne c, of cfg] e
  show "sender_calls wb =
         sender_calls (snd stb) @
           (if USE_THINGSPEAK cfg \<or> USE_HTTP_POST cfg
            then map entry_data (data_buffer (fst stb)) else [])"
    by simp
next
  assume a: "data_buffer (fst stc) \<noteq> [] \<and> fst (reconnect nwc stc)
        \<and> (\<forall>ok \<in> set (drain_outcomes cfg nwc stc). ok)
        \<and> transmit_buffered_data cfg nwc stc = (nc, selfc, wc)"
  then have ne: "data_buffer (fst stc) \<noteq> []" and c: "fst (reconnect nwc stc)"
    and ok: "\<forall>ok \<in> set (drain_outcomes cfg nwc stc). ok"
    and e: "transmit_buffered_data cfg nwc stc = (nc, selfc, wc)"
    by blast+
  from ok have f: "failed_of (data_buffer (fst stc)) (drain_outcomes cfg nwc stc) = []"
    by (rule failed_of_all_ok)
  from transmit_buffered_data_drain_result(2) [OF ne c, of cfg] e f
  show b: "data_buffer selfc = []" by simp
  from transmit_buffered_data_count [of cfg nwc stc] e b
  show "nc = int (length (data_buffer (fst stc)))" by simp
next
  assume a: "fst (reconnect nwc stc) \<and> USE_THINGSPEAK cfg
        \<and> (\<forall>i < length (data_buffer (fst stc)).
              response nwc (requests_made (snd stc) + i) = Status 200)"
  then show "\<forall>ok \<in> set (drain_outcomes cfg nwc stc). ok"
    using drain_outcomes_all_accepted by blast
next
  assume a: "\<not> (data_buffer (fst std) \<noteq> [] \<and> fst (reconnect nwd std))
        \<and> transmit_buffered_data cfg nwd std = (nd, selfd, wd)"
  then have i: "\<not> (data_buffer (fst std) \<noteq> [] \<and> fst (reconnect nwd std))"
    and e: "transmit_buffered_data cfg nwd std = (nd, selfd, wd)"
    by simp_all
  from transmit_buffered_data_idle(1) [OF i, of cfg] e show "nd = 0" by simp
  from transmit_buffered_data_idle(2) [OF i, of cfg] e
  show "data_buffer selfd = data_buffer (fst std)" by simp
  from transmit_buffered_data_idle(3) [OF i, of cfg] e
  show "sender_calls wd = sender_calls (snd std)" by simp
qed

theorem transmit_buffered_data_drains_in_order_witness:
  "after_three_failed_sends config_py flaky_net = three_buffered
   \<and> data_buffer (fst three_buffered) \<noteq> []
   \<and> fst (reconnect flaky_net three_buffered)
   \<and> USE_THINGSPEAK config_py
   \<and> fst (transmit_buffered_data config_py flaky_net three_buffered) = 3
   \<and> data_buffer (fst (snd (transmit_buffered_data config_py flaky_net three_buffered))) = []
   \<and> sender_calls (snd (snd (transmit_buffered_data config_py flaky_net three_buffered)))
       = sender_calls (snd three_buffered) @ [1, 2, 3]
   \<and> fst (reconnect lossy_net three_buffered)
   \<and> drain_outcomes config_py lossy_net three_buffered = [True, False, True]
   \<and> fst (transmit_buffered_data config_py lossy_net three_buffered) = 2
   \<and> data_buffer (fst (snd (transmit_buffered_data config_py lossy_net three_buffered)))
       = [entry_of (20, 2)]
   \<and> \<not> fst (reconnect dead_net three_buffered)
   \<and> fst (transmit_buffered_data config_py dead_net three_buffered) = 0
   \<and> data_buffer (fst (snd (transmit_buffered_data config_py dead_net three_buffered)))
       = [entry_of (10, 1), entry_of (20, 2), entry_of (30, 3)]"
proof -
  let ?b = "[entry_of (10, 1), entry_of (20, 2), entry_of (30, 3 :: nat)]"
  let ?Sf = "\<lparr>is_connected = True, connection_attempts = 0, last_connection_time = 100,
              failed_transmissions = 0, data_buffer = ([] :: nat buffered_entry list)\<rparr>"
  let ?Sl = "\<lparr>is_connected = True, connection_attempts = 0, last_connection_time = 100,
              failed_transmissions = 0, data_buffer = [entry_of (20, 2 :: nat)]\<rparr>"
  let ?Sd = "\<lparr>is_connected = False, connection_attempts = 6, last_connection_time = 0,
              failed_transmissions = 0, data_buffer = ?b\<rparr>"
  let ?Wf = "\<lparr>connect_calls = 6, requests_made = 3,
              sender_calls = [1, 2, 3, 1, 2, 3 :: nat]\<rparr>"
  let ?Wd = "\<lparr>connect_calls = 6, requests_made = 0, sender_calls = [1, 2, 3 :: nat]\<rparr>"
  have ne: "data_buffer (fst three_buffered) \<noteq> []" by (simp add: three_buffered_def)
  have b: "data_buffer (fst three_buffered) = ?b" by (simp add: three_buffered_def)
  have u: "USE_THINGSPEAK config_py" by (simp add: config_py_def)
  have r: "\<forall>i < length (data_buffer (fst three_buffered)).
             response flaky_net (requests_made (snd three_buffered) + i) = Status 200"
    by (simp add: flaky_net_def)
  note T = transmit_buffered_data_drains_in_order
             [where cfg = config_py
                and nwa = lossy_net and sta = three_buffered and na = 2
                and selfa = ?Sl and wa = ?Wf
                and nwb = lossy_net and stb = three_buffered and nb = 2
                and selfb = ?Sl and wb = ?Wf
                and nwc = flaky_net and stc = three_buffered and nc = 3
                and selfc = ?Sf and wc = ?Wf
                and nwd = dead_net and std = three_buffered and nd = 0
                and selfd = ?Sd and wd = ?Wd]
  have "\<forall>ok \<in> set (drain_outcomes config_py flaky_net three_buffered). ok"
    by (rule T [THEN conjunct2, THEN conjunct2, THEN conjunct2, THEN conjunct1, THEN mp])
       (intro conjI reconnect_three_buffered(1) u r)
  then have f: "data_buffer ?Sf = [] \<and> (3 :: int) = int (length (data_buffer (fst three_buffered)))"
    by (intro T [THEN conjunct2, THEN conjunct2, THEN conjunct1, THEN mp]
          conjI ne reconnect_three_buffered(1) drain_flaky)
  have l: "data_buffer ?Sl =
             failed_of (data_buffer (fst three_buffered))
               (drain_outcomes config_py lossy_net three_buffered)
           \<and> (2 :: int) = int (length (filter id (drain_outcomes config_py lossy_net three_buffered)))"
    using T [THEN conjunct2, THEN conjunct1, THEN mp,
             OF conjI [OF ne conjI [OF reconnect_three_buffered(2) drain_lossy]]]
    by (elim conjE) (intro conjI)
  have nc: "\<not> (data_buffer (fst three_buffered) \<noteq> [] \<and> fst (reconnect dead_net three_buffered))"
    using reconnect_three_buffered(3) by simp
  have d: "(0 :: int) = 0 \<and> data_buffer ?Sd = data_buffer (fst three_buffered)"
    using T [THEN conjunct2, THEN conjunct2, THEN conjunct2, THEN conjunct2, THEN mp,
             OF conjI [OF nc drain_dead]]
    by (elim conjE) (intro conjI)
  show ?thesis
  proof (intro conjI)
    show "after_three_failed_sends config_py flaky_net = three_buffered"
      by (rule after_three_failed_sends_flaky)
    show "data_buffer (fst three_buffered) \<noteq> []" by (rule ne)
    show "fst (reconnect flaky_net three_buffered)" by (rule reconnect_three_buffered(1))
    show "USE_THINGSPEAK config_py" by (rule u)
    show "fst (transmit_buffered_data config_py flaky_net three_buffered) = 3"
      by (simp add: drain_flaky)
    show "data_buffer (fst (snd (transmit_buffered_data config_py flaky_net three_buffered))) = []"
      using f by (simp add: drain_flaky)
    show "sender_calls (snd (snd (transmit_buffered_data config_py flaky_net three_buffered)))
            = sender_calls (snd three_buffered) @ [1, 2, 3]"
      unfolding drain_flaky by (simp add: three_buffered_def)
    show "fst (reconnect lossy_net three_buffered)" by (rule reconnect_three_buffered(2))
    show "drain_outcomes config_py lossy_net three_buffered = [True, False, True]"
      by (rule drain_outcomes_three_buffered(2))
    show "fst (transmit_buffered_data config_py lossy_net three_buffered) = 2"
      by (simp add: drain_lossy)
    show "data_buffer (fst (snd (transmit_buffered_data config_py lossy_net three_buffered)))
            = [entry_of (20, 2)]"
      using l by (simp add: drain_lossy)
    show "\<not> fst (reconnect dead_net three_buffered)" by (rule reconnect_three_buffered(3))
    show "fst (transmit_buffered_data config_py dead_net three_buffered) = 0"
      by (simp add: drain_dead)
    show "data_buffer (fst (snd (transmit_buffered_data config_py dead_net three_buffered)))
            = [entry_of (10, 1), entry_of (20, 2), entry_of (30, 3)]"
      using d by (simp add: drain_dead)
  qed
qed


subsection \<open>The capacity invariant\<close>

lemma reachable_after_three_failed_sends:
  "reachable cfg nw (after_three_failed_sends cfg nw)"
  unfolding after_three_failed_sends_def
  by (intro r_send r_init)

lemma after_three_failed_sends_small:
  "data_buffer (fst (after_three_failed_sends small_config dead_net)) =
     [entry_of (20, 2), entry_of (30, 3)]"
  unfolding after_three_failed_sends_def
  by (simp add: send_data_def send_configured_def send_to_thingspeak_def
        transmit_buffered_data_def connect_def buffer_data_def wifi_manager_init_def
        world_init_def dead_net_def small_config_def config_py_def entry_of_def Let_def)

text \<open>
  Claim C5. From a buffer within the capacity, after any sequence of calls of
  \<^verbatim>\<open>buffer_data\<close> the buffer is within the capacity and holds the most recent entries
  of the old buffer followed by the new entries, in insertion order. N+1 insertions into
  an empty buffer of capacity N leave the last N entries: the first is evicted. An
  insertion into a full buffer of positive capacity drops the entry at index 0 and
  appends the new one at the end. Every state that the methods of the class produce
  from a freshly constructed manager is within the capacity, when the capacity is not
  negative.
\<close>

theorem buffer_capacity_invariant:
  "(int (length (data_buffer (self :: 'd wifi_manager))) \<le> DATA_BUFFER_SIZE cfg \<longrightarrow>
       int (length (data_buffer (buffer_all cfg self tds))) \<le> DATA_BUFFER_SIZE cfg
     \<and> data_buffer (buffer_all cfg self tds) =
         drop (length (data_buffer self) + length tds - nat (DATA_BUFFER_SIZE cfg))
              (data_buffer self @ map entry_of tds))
   \<and> (DATA_BUFFER_SIZE cfg = int N \<and> length (batch :: (real \<times> 'd) list) = N + 1 \<longrightarrow>
       data_buffer (buffer_all cfg wifi_manager_init batch) = map entry_of (tl batch)
     \<and> length (data_buffer (buffer_all cfg wifi_manager_init batch)) = N)
   \<and> (0 < DATA_BUFFER_SIZE cfg
        \<and> int (length (data_buffer (full :: 'd wifi_manager))) = DATA_BUFFER_SIZE cfg \<longrightarrow>
       data_buffer (buffer_data cfg full t d) = tl (data_buffer full) @ [entry_of (t, d)])
   \<and> (0 \<le> DATA_BUFFER_SIZE cfg
        \<and> reachable cfg nw (st :: 'd wifi_manager \<times> 'd world) \<longrightarrow>
       int (length (data_buffer (fst st))) \<le> DATA_BUFFER_SIZE cfg)"
proof (intro conjI impI)
  assume a: "int (length (data_buffer self)) \<le> DATA_BUFFER_SIZE cfg"
  then have l: "length (data_buffer self) \<le> nat (DATA_BUFFER_SIZE cfg)" by linarith
  from l show e: "data_buffer (buffer_all cfg self tds) =
         drop (length (data_buffer self) + length tds - nat (DATA_BUFFER_SIZE cfg))
              (data_buffer self @ map entry_of tds)"
    by (rule buffer_all_drop)
  from a show "int (length (data_buffer (buffer_all cfg self tds))) \<le> DATA_BUFFER_SIZE cfg"
    unfolding e by simp
next
  assume a: "DATA_BUFFER_SIZE cfg = int N \<and> length batch = N + 1"
  have "length (data_buffer (wifi_manager_init :: 'd wifi_manager)) \<le> nat (DATA_BUFFER_SIZE cfg)"
    by (simp add: wifi_manager_init_def)
  from buffer_all_drop [OF this, of batch] a
  have "data_buffer (buffer_all cfg wifi_manager_init batch) = drop (Suc 0) (map entry_of batch)"
    by (simp add: wifi_manager_init_def)
  then show e: "data_buffer (buffer_all cfg wifi_manager_init batch) = map entry_of (tl batch)"
    by (simp add: drop_Suc map_tl)
  from a show "length (data_buffer (buffer_all cfg wifi_manager_init batch)) = N"
    unfolding e by simp
next
  assume a: "0 < DATA_BUFFER_SIZE cfg \<and> int (length (data_buffer full)) = DATA_BUFFER_SIZE cfg"
  then have "data_buffer full \<noteq> []" by auto
  with a show "data_buffer (buffer_data cfg full t d) = tl (data_buffer full) @ [entry_of (t, d)]"
    by (simp add: data_buffer_buffer_data)
next
  assume a: "0 \<le> DATA_BUFFER_SIZE cfg \<and> reachable cfg nw st"
  then have "length (data_buffer (fst st)) \<le> nat (DATA_BUFFER_SIZE cfg)"
    using reachable_within_capacity by blast
  with a show "int (length (data_buffer (fst st))) \<le> DATA_BUFFER_SIZE cfg" by linarith
qed

theorem buffer_capacity_invariant_witness:
  "DATA_BUFFER_SIZE small_config = 2
   \<and> data_buffer (buffer_all small_config
        (wifi_manager_init\<lparr>data_buffer := [entry_of (5, 0 :: nat)]\<rparr>)
        [(10, 1), (20, 2), (30, 3)])
       = [entry_of (20, 2), entry_of (30, 3)]
   \<and> data_buffer (buffer_all small_config wifi_manager_init
        [(10, 1 :: nat), (20, 2), (30, 3)])
       = [entry_of (20, 2), entry_of (30, 3)]
   \<and> data_buffer (buffer_data small_config
        (wifi_manager_init\<lparr>data_buffer := [entry_of (10, 1 :: nat), entry_of (20, 2)]\<rparr>) 30 3)
       = [entry_of (20, 2), entry_of (30, 3)]
   \<and> reachable small_config dead_net (after_three_failed_sends small_config dead_net)
   \<and> length (data_buffer (fst (after_three_failed_sends small_config dead_net))) = 2"
proof -
  let ?one = "wifi_manager_init\<lparr>data_buffer := [entry_of (5, 0 :: nat)]\<rparr>"
  let ?full = "wifi_manager_init\<lparr>data_buffer := [entry_of (10, 1 :: nat), entry_of (20, 2)]\<rparr>"
  let ?tds = "[(10, 1 :: nat), (20, 2), (30, 3)] :: (real \<times> nat) list"
  have c: "DATA_BUFFER_SIZE small_config = 2" by (simp add: small_config_def)
  note T = buffer_capacity_invariant
             [where cfg = small_config and self = ?one and tds = ?tds and N = 2
                and batch = ?tds and full = ?full and t = 30 and d = 3
                and nw = dead_net and st = "after_three_failed_sends small_config dead_net"]
  have h1: "int (length (data_buffer ?one)) \<le> DATA_BUFFER_SIZE small_config"
    by (simp add: c)
  have h2: "DATA_BUFFER_SIZE small_config = int 2 \<and> length ?tds = 2 + 1"
    by (simp add: c)
  have h3: "0 < DATA_BUFFER_SIZE small_config
            \<and> int (length (data_buffer ?full)) = DATA_BUFFER_SIZE small_config"
    by (simp add: c)
  have h4: "0 \<le> DATA_BUFFER_SIZE small_config
            \<and> reachable small_config dead_net (after_three_failed_sends small_config dead_net)"
    by (simp add: c reachable_after_three_failed_sends)
  note c1 = T [THEN conjunct1, THEN mp, OF h1]
  note c2 = T [THEN conjunct2, THEN conjunct1, THEN mp, OF h2]
  note c3 = T [THEN conjunct2, THEN conjunct2, THEN conjunct1, THEN mp, OF h3]
  note c4 = T [THEN conjunct2, THEN conjunct2, THEN conjunct2, THEN mp, OF h4]
  show ?thesis
  proof (intro conjI)
    show "DATA_BUFFER_SIZE small_config = 2" by (rule c)
    show "data_buffer (buffer_all small_config ?one ?tds) = [entry_of (20, 2), entry_of (30, 3)]"
      unfolding c1 [THEN conjunct2] by (simp add: c)
    show "data_buffer (buffer_all small_config wifi_manager_init ?tds)
            = [entry_of (20, 2), entry_of (30, 3)]"
      unfolding c2 [THEN conjunct1] by simp
    show "data_buffer (buffer_data small_config ?full 30 3) = [entry_of (20, 2), entry_of (30, 3)]"
      unfolding c3 by simp
    show "reachable small_config dead_net (after_three_failed_sends small_config dead_net)"
      by (rule reachable_after_three_failed_sends)
    show "length (data_buffer (fst (after_three_failed_sends small_config dead_net))) = 2"
      using c4 by (simp add: after_three_failed_sends_small)
  qed
qed

end
